theory Spec2Isabelle
  imports
    Complex_Main
    "HOL-Library.Word"
    "HOL-Library.Log_Nat"
    "HOL-Library.Multiset"
    "HOL-Library.Char_ord"
    "HOL-Library.List_Lexorder"
begin

section \<open>Go library functions used by the generator\<close>

text \<open>
  Go strings are byte sequences; they are modelled as \<open>string\<close> (a list of 8-bit
  characters).  The comparison \<open>s < t\<close> of two Go strings is the lexicographic order on
  bytes, which is the order the two imported library theories give to \<open>char list\<close>.
\<close>

subsection \<open>Package strings\<close>

definition HasSuffix :: "string \<Rightarrow> string \<Rightarrow> bool" where
  "HasSuffix s suffix =
     (length suffix \<le> length s \<and> drop (length s - length suffix) s = suffix)"

definition TrimSuffix :: "string \<Rightarrow> string \<Rightarrow> string" where
  "TrimSuffix s suffix =
     (if HasSuffix s suffix then take (length s - length suffix) s else s)"

text \<open>\<open>strings.Split\<close> with a separator of one byte.  The result is never empty.\<close>

fun Split :: "string \<Rightarrow> char \<Rightarrow> string list" where
  "Split [] sep = [[]]"
| "Split (c # cs) sep =
     (if c = sep then [] # Split cs sep
      else (case Split cs sep of [] \<Rightarrow> [[c]] | p # ps \<Rightarrow> (c # p) # ps))"

fun Join :: "string list \<Rightarrow> string \<Rightarrow> string" where
  "Join [] sep = []"
| "Join [p] sep = p"
| "Join (p # q # ps) sep = p @ sep @ Join (q # ps) sep"

text \<open>\<open>strings.Replace(s, old, new, 1)\<close>: the first occurrence only.\<close>

fun Replace1 :: "string \<Rightarrow> string \<Rightarrow> string \<Rightarrow> string" where
  "Replace1 [] old new = (if old = [] then new else [])"
| "Replace1 (c # cs) old new =
     (if take (length old) (c # cs) = old then new @ drop (length old) (c # cs)
      else c # Replace1 cs old new)"

text \<open>\<open>strings.Replace(s, "\n", "", -1)\<close>.\<close>

definition removeNewLines :: "string \<Rightarrow> string" where
  "removeNewLines s = filter (\<lambda>c. c \<noteq> CHR 0x0A) s"

text \<open>
  \<open>strings.ToUpper\<close> and \<open>strings.ToLower\<close> are only ever applied to strings of one
  byte (\<open>name[0:1]\<close>, or a name of length one).  An ASCII byte is mapped by the ASCII case
  table; a byte from \<open>0x80\<close> on is not valid UTF-8 by itself and comes back as the
  encoding of the replacement character U+FFFD.
\<close>

definition upperOf :: "char \<Rightarrow> char" where
  "upperOf c =
     (case map_of (zip ''abcdefghijklmnopqrstuvwxyz'' ''ABCDEFGHIJKLMNOPQRSTUVWXYZ'') c of
        Some u \<Rightarrow> u | None \<Rightarrow> c)"

definition lowerOf :: "char \<Rightarrow> char" where
  "lowerOf c =
     (case map_of (zip ''ABCDEFGHIJKLMNOPQRSTUVWXYZ'' ''abcdefghijklmnopqrstuvwxyz'') c of
        Some l \<Rightarrow> l | None \<Rightarrow> c)"

definition ToUpper1 :: "char \<Rightarrow> string" where
  "ToUpper1 c =
     (if of_char c < (128::nat) then [upperOf c] else [CHR 0xEF, CHR 0xBF, CHR 0xBD])"

definition ToLower1 :: "char \<Rightarrow> string" where
  "ToLower1 c =
     (if of_char c < (128::nat) then [lowerOf c] else [CHR 0xEF, CHR 0xBF, CHR 0xBD])"

text \<open>
  \<open>strings.TrimSpace\<close> removes leading and trailing white space as Unicode defines it;
  \<open>unicodeSpaces\<close> lists the UTF-8 encodings of those code points.
\<close>

definition unicodeSpaces :: "string list" where
  "unicodeSpaces =
     map (\<lambda>c. [c]) [CHR 0x09, CHR 0x0A, CHR 0x0B, CHR 0x0C, CHR 0x0D, CHR 0x20] @
     [[CHR 0xC2, CHR 0x85], [CHR 0xC2, CHR 0xA0], [CHR 0xE1, CHR 0x9A, CHR 0x80]] @
     map (\<lambda>c. [CHR 0xE2, CHR 0x80, c])
       [CHR 0x80, CHR 0x81, CHR 0x82, CHR 0x83, CHR 0x84, CHR 0x85, CHR 0x86, CHR 0x87,
        CHR 0x88, CHR 0x89, CHR 0x8A, CHR 0xA8, CHR 0xA9, CHR 0xAF] @
     [[CHR 0xE2, CHR 0x81, CHR 0x9F], [CHR 0xE3, CHR 0x80, CHR 0x80]]"

definition spaceAt :: "string list \<Rightarrow> string \<Rightarrow> nat" where
  "spaceAt ws s =
     (case find (\<lambda>w. take (length w) s = w) ws of None \<Rightarrow> 0 | Some w \<Rightarrow> length w)"

fun trimLeftFrom :: "string list \<Rightarrow> nat \<Rightarrow> string \<Rightarrow> string" where
  "trimLeftFrom ws n [] = []"
| "trimLeftFrom ws (Suc n) (c # cs) = trimLeftFrom ws n cs"
| "trimLeftFrom ws 0 (c # cs) =
     (case spaceAt ws (c # cs) of 0 \<Rightarrow> c # cs | Suc k \<Rightarrow> trimLeftFrom ws k cs)"

definition TrimSpace :: "string \<Rightarrow> string" where
  "TrimSpace s =
     rev (trimLeftFrom (map rev unicodeSpaces) 0 (rev (trimLeftFrom unicodeSpaces 0 s)))"

text \<open>
  \<open>strings.SplitN(s, "|", 2)\<close> followed by \<open>if len(split) >= 2 { s = split[1] }\<close>: the
  text after the first bar, or the whole text when there is no bar.
\<close>

definition afterFirstBar :: "string \<Rightarrow> string" where
  "afterFirstBar s =
     (if CHR ''|'' \<in> set s then tl (dropWhile (\<lambda>c. c \<noteq> CHR ''|'') s) else s)"

subsection \<open>Package regexp: the three patterns of the generator\<close>

text \<open>
  The generator compiles three fixed patterns.  Each is modelled by the function that
  computes what the leftmost-first matcher of Go returns for that pattern.

  \<open>linterRulePattern = \(-- .* --\)\<close>, used with \<open>ReplaceAllString(s, "")\<close>: a match
  starts at \<open>"(-- "\<close> and, the star being greedy and the dot not matching a line feed,
  ends with the last \<open>" --)"\<close> of the same line.
\<close>

definition lastOccurrence :: "string \<Rightarrow> string \<Rightarrow> nat option" where
  "lastOccurrence pat s =
     (case filter (\<lambda>i. take (length pat) (drop i s) = pat) (rev [0 ..< Suc (length s)]) of
        [] \<Rightarrow> None | i # _ \<Rightarrow> Some i)"

definition linterRuleMatch :: "string \<Rightarrow> nat option" where
  "linterRuleMatch s =
     (if take 4 s = ''(-- '' then
        (case lastOccurrence '' --)'' (takeWhile (\<lambda>c. c \<noteq> CHR 0x0A) (drop 4 s)) of
           None \<Rightarrow> None | Some k \<Rightarrow> Some (4 + k + 4))
      else None)"

fun removeLinterRulesFrom :: "nat \<Rightarrow> string \<Rightarrow> string" where
  "removeLinterRulesFrom n [] = []"
| "removeLinterRulesFrom (Suc n) (c # cs) = removeLinterRulesFrom n cs"
| "removeLinterRulesFrom 0 (c # cs) =
     (case linterRuleMatch (c # cs) of
        None \<Rightarrow> c # removeLinterRulesFrom 0 cs
      | Some len \<Rightarrow> removeLinterRulesFrom (len - 1) cs)"

definition removeLinterRules :: "string \<Rightarrow> string" where
  "removeLinterRules s = removeLinterRulesFrom 0 s"

text \<open>
  \<open>pathPattern = {([^=}]+)}\<close>, used with \<open>FindAllStringSubmatch(path, -1)\<close>; only the
  captured group of every match is read.
\<close>

definition pathPatternMatch :: "string \<Rightarrow> string option" where
  "pathPatternMatch s =
     (case s of
        [] \<Rightarrow> None
      | c # cs \<Rightarrow>
          (if c = CHR ''{'' then
             (let run = takeWhile (\<lambda>x. x \<noteq> CHR ''='' \<and> x \<noteq> CHR ''}'') cs in
              if run \<noteq> [] \<and> take 1 (drop (length run) cs) = ''}'' then Some run else None)
           else None))"

fun pathPatternFindAllFrom :: "nat \<Rightarrow> string \<Rightarrow> string list" where
  "pathPatternFindAllFrom n [] = []"
| "pathPatternFindAllFrom (Suc n) (c # cs) = pathPatternFindAllFrom n cs"
| "pathPatternFindAllFrom 0 (c # cs) =
     (case pathPatternMatch (c # cs) of
        None \<Rightarrow> pathPatternFindAllFrom 0 cs
      | Some run \<Rightarrow> run # pathPatternFindAllFrom (Suc (length run)) cs)"

definition pathPatternFindAll :: "string \<Rightarrow> string list" where
  "pathPatternFindAll path = pathPatternFindAllFrom 0 path"

text \<open>
  \<open>namedPathPattern = {(.+)=(.+)}\<close>, used with \<open>FindStringSubmatch(path)\<close>.  Both groups
  are greedy and stay on one line: the second group ends at the last closing brace of the
  line, the first at the last equals sign that leaves the second group non-empty.  The
  result is the whole match and the two groups.
\<close>

definition indicesOf :: "char \<Rightarrow> string \<Rightarrow> nat list" where
  "indicesOf c s = filter (\<lambda>i. s ! i = c) [0 ..< length s]"

definition namedPathPatternMatch :: "string \<Rightarrow> (string \<times> string \<times> string) option" where
  "namedPathPatternMatch s =
     (case s of
        [] \<Rightarrow> None
      | c # cs \<Rightarrow>
          (if c = CHR ''{'' then
             (let seg = takeWhile (\<lambda>x. x \<noteq> CHR 0x0A) cs in
              case rev (indicesOf (CHR ''}'') seg) of
                [] \<Rightarrow> None
              | r # _ \<Rightarrow>
                  (case rev (filter (\<lambda>p. 1 \<le> p \<and> p + 2 \<le> r) (indicesOf (CHR ''='') seg)) of
                     [] \<Rightarrow> None
                   | p # _ \<Rightarrow>
                       Some (c # take (Suc r) seg, take p seg, take (r - p - 1) (drop (Suc p) seg))))
           else None))"

fun namedPathPatternFind :: "string \<Rightarrow> (string \<times> string \<times> string) option" where
  "namedPathPatternFind [] = None"
| "namedPathPatternFind (c # cs) =
     (case namedPathPatternMatch (c # cs) of
        Some m \<Rightarrow> Some m
      | None \<Rightarrow> namedPathPatternFind cs)"

text \<open>
  The pattern of \<open>addSchemasToDocumentV3\<close>, \<open>{[a-z_A-Z0-9]*}\<close>, with
  \<open>ReplaceAllString(pattern, "[a-z2-7]{26}")\<close>.
\<close>

definition isPathParamChar :: "char \<Rightarrow> bool" where
  "isPathParamChar c =
     (c \<in> set ''abcdefghijklmnopqrstuvwxyz_ABCDEFGHIJKLMNOPQRSTUVWXYZ0123456789'')"

definition pathParamsMatch :: "string \<Rightarrow> nat option" where
  "pathParamsMatch s =
     (case s of
        [] \<Rightarrow> None
      | c # cs \<Rightarrow>
          (if c = CHR ''{'' then
             (let run = takeWhile isPathParamChar cs in
              if take 1 (drop (length run) cs) = ''}'' then Some (length run + 2) else None)
           else None))"

fun replacePathParamsFrom :: "nat \<Rightarrow> string \<Rightarrow> string" where
  "replacePathParamsFrom n [] = []"
| "replacePathParamsFrom (Suc n) (c # cs) = replacePathParamsFrom n cs"
| "replacePathParamsFrom 0 (c # cs) =
     (case pathParamsMatch (c # cs) of
        None \<Rightarrow> c # replacePathParamsFrom 0 cs
      | Some len \<Rightarrow> ''[a-z2-7]{26}'' @ replacePathParamsFrom (len - 1) cs)"

definition replacePathParams :: "string \<Rightarrow> string" where
  "replacePathParams pattern = replacePathParamsFrom 0 pattern"

subsection \<open>Conversion of integers to float64\<close>

text \<open>
  A \<open>float64\<close> that holds an integer is modelled by the real number it denotes.
  \<open>float64(n)\<close> is exact up to 53 bits and rounds to the nearest value with 53 significant
  bits, ties to even, beyond (\<open>bitlen\<close> is the number of bits of a positive integer).
\<close>

definition float64 :: "int \<Rightarrow> real" where
  "float64 n =
     (let a = \<bar>n\<bar> in
      if a < 2 ^ 53 then real_of_int n
      else
        (let e = nat (bitlen a - 53);
             q = a div 2 ^ e;
             r = a mod 2 ^ e;
             h = 2 ^ (e - 1);
             q' = (if h < r \<or> (r = h \<and> odd q) then q + 1 else q)
         in real_of_int (sgn n * (q' * 2 ^ e))))"

text \<open>\<open>strconv.Itoa\<close>.\<close>

fun natToString :: "nat \<Rightarrow> string" where
  "natToString n =
     (if n < 10 then [''0123456789'' ! n]
      else natToString (n div 10) @ [''0123456789'' ! (n mod 10)])"

definition Itoa :: "int \<Rightarrow> string" where
  "Itoa i = (if i < 0 then ''-'' @ natToString (nat (- i)) else natToString (nat i))"

section \<open>The input: descriptors handed over by the plugin host\<close>

datatype Kind =
    BoolKind | EnumKind | Int32Kind | Sint32Kind | Uint32Kind | Int64Kind | Sint64Kind
  | Uint64Kind | Sfixed32Kind | Fixed32Kind | FloatKind | Sfixed64Kind | Fixed64Kind
  | DoubleKind | StringKind | BytesKind | MessageKind | GroupKind

text \<open>\<open>kind.String()\<close>.\<close>

fun Kind_String :: "Kind \<Rightarrow> string" where
  "Kind_String BoolKind = ''bool''"
| "Kind_String EnumKind = ''enum''"
| "Kind_String Int32Kind = ''int32''"
| "Kind_String Sint32Kind = ''sint32''"
| "Kind_String Uint32Kind = ''uint32''"
| "Kind_String Int64Kind = ''int64''"
| "Kind_String Sint64Kind = ''sint64''"
| "Kind_String Uint64Kind = ''uint64''"
| "Kind_String Sfixed32Kind = ''sfixed32''"
| "Kind_String Fixed32Kind = ''fixed32''"
| "Kind_String FloatKind = ''float''"
| "Kind_String Sfixed64Kind = ''sfixed64''"
| "Kind_String Fixed64Kind = ''fixed64''"
| "Kind_String DoubleKind = ''double''"
| "Kind_String StringKind = ''string''"
| "Kind_String BytesKind = ''bytes''"
| "Kind_String MessageKind = ''message''"
| "Kind_String GroupKind = ''group''"

text \<open>
  A message descriptor, as far as the generator reads it: the package of its file, the
  name of its parent when the parent is a message, and its own name.
\<close>

record MessageDescriptor =
  md_Package :: string
  md_Parent :: "string option"
  md_Name :: string

subsection \<open>Validation rules (protoc-gen-validate)\<close>

text \<open>
  Optional scalar fields of the rule messages are pointers in Go and options here; the
  getters return the zero value for an absent field.  The well-known format of a string
  rule is a oneof.
\<close>

datatype WellKnown =
    WellKnown_nil
  | StringRules_Email bool | StringRules_Hostname bool | StringRules_Ip bool
  | StringRules_Ipv4 bool | StringRules_Ipv6 bool | StringRules_Uri bool
  | StringRules_UriRef bool | StringRules_Address bool | StringRules_Uuid bool
  | StringRules_WellKnownRegex

record StringRules =
  sr_MinLen :: "64 word option"
  sr_MaxLen :: "64 word option"
  sr_Pattern :: "string option"
  sr_WellKnown :: WellKnown

record Int32Rules =
  i32_Gte :: "32 word option"
  i32_Lte :: "32 word option"

record Int64Rules =
  i64_Gte :: "64 word option"
  i64_Lte :: "64 word option"

text \<open>\<open>NotIn\<close> is a slice; the nil slice is the empty list.\<close>

record EnumRules =
  er_Const :: "32 word option"
  er_NotIn :: "32 word list"

text \<open>
  \<open>FieldRules\<close> with its oneof \<open>Type\<close>.  \<open>FieldRules_Other\<close> stands for the rule types the
  modelled functions never read.
\<close>

datatype FieldRules =
    FieldRules_nil
  | FieldRules_String StringRules
  | FieldRules_Int32 Int32Rules
  | FieldRules_Int64 Int64Rules
  | FieldRules_Enum EnumRules
  | FieldRules_Other

text \<open>The getters are safe on a nil receiver: no rules, no rule of any type.\<close>

fun GetString :: "FieldRules option \<Rightarrow> StringRules option" where
  "GetString (Some (FieldRules_String r)) = Some r"
| "GetString _ = None"

fun GetInt32 :: "FieldRules option \<Rightarrow> Int32Rules option" where
  "GetInt32 (Some (FieldRules_Int32 r)) = Some r"
| "GetInt32 _ = None"

fun GetInt64 :: "FieldRules option \<Rightarrow> Int64Rules option" where
  "GetInt64 (Some (FieldRules_Int64 r)) = Some r"
| "GetInt64 _ = None"

fun GetEnum :: "FieldRules option \<Rightarrow> EnumRules option" where
  "GetEnum (Some (FieldRules_Enum r)) = Some r"
| "GetEnum _ = None"

definition GetEmail :: "StringRules \<Rightarrow> bool" where
  "GetEmail r = (case sr_WellKnown r of StringRules_Email b \<Rightarrow> b | _ \<Rightarrow> False)"

definition GetHostname :: "StringRules \<Rightarrow> bool" where
  "GetHostname r = (case sr_WellKnown r of StringRules_Hostname b \<Rightarrow> b | _ \<Rightarrow> False)"

definition GetIp :: "StringRules \<Rightarrow> bool" where
  "GetIp r = (case sr_WellKnown r of StringRules_Ip b \<Rightarrow> b | _ \<Rightarrow> False)"

definition GetIpv4 :: "StringRules \<Rightarrow> bool" where
  "GetIpv4 r = (case sr_WellKnown r of StringRules_Ipv4 b \<Rightarrow> b | _ \<Rightarrow> False)"

definition GetIpv6 :: "StringRules \<Rightarrow> bool" where
  "GetIpv6 r = (case sr_WellKnown r of StringRules_Ipv6 b \<Rightarrow> b | _ \<Rightarrow> False)"

definition GetUri :: "StringRules \<Rightarrow> bool" where
  "GetUri r = (case sr_WellKnown r of StringRules_Uri b \<Rightarrow> b | _ \<Rightarrow> False)"

definition GetUriRef :: "StringRules \<Rightarrow> bool" where
  "GetUriRef r = (case sr_WellKnown r of StringRules_UriRef b \<Rightarrow> b | _ \<Rightarrow> False)"

definition GetUuid :: "StringRules \<Rightarrow> bool" where
  "GetUuid r = (case sr_WellKnown r of StringRules_Uuid b \<Rightarrow> b | _ \<Rightarrow> False)"

definition GetMinLen :: "StringRules \<Rightarrow> 64 word" where
  "GetMinLen r = (case sr_MinLen r of None \<Rightarrow> 0 | Some n \<Rightarrow> n)"

definition GetMaxLen :: "StringRules \<Rightarrow> 64 word" where
  "GetMaxLen r = (case sr_MaxLen r of None \<Rightarrow> 0 | Some n \<Rightarrow> n)"

definition GetPattern :: "StringRules \<Rightarrow> string" where
  "GetPattern r = (case sr_Pattern r of None \<Rightarrow> [] | Some p \<Rightarrow> p)"

definition GetGte32 :: "Int32Rules \<Rightarrow> 32 word" where
  "GetGte32 r = (case i32_Gte r of None \<Rightarrow> 0 | Some n \<Rightarrow> n)"

definition GetLte32 :: "Int32Rules \<Rightarrow> 32 word" where
  "GetLte32 r = (case i32_Lte r of None \<Rightarrow> 0 | Some n \<Rightarrow> n)"

definition GetGte64 :: "Int64Rules \<Rightarrow> 64 word" where
  "GetGte64 r = (case i64_Gte r of None \<Rightarrow> 0 | Some n \<Rightarrow> n)"

definition GetLte64 :: "Int64Rules \<Rightarrow> 64 word" where
  "GetLte64 r = (case i64_Lte r of None \<Rightarrow> 0 | Some n \<Rightarrow> n)"

subsection \<open>Fields, messages, methods, services, files\<close>

datatype FieldBehavior =
    FIELD_BEHAVIOR_UNSPECIFIED | OPTIONAL | REQUIRED | OUTPUT_ONLY | INPUT_ONLY | IMMUTABLE
  | UNORDERED_LIST

text \<open>
  A field, with what \<open>protogen.Field\<close> and its descriptor give: \<open>f_MapValue\<close> is
  \<open>MapValue()\<close> and \<open>IsMap()\<close> holds when it is present; \<open>f_Message\<close> is \<open>Message()\<close>, read
  for the message and group kinds; \<open>f_EnumValues\<close> are the names of \<open>Enum().Values()\<close> in
  declaration order, read for the enum kind; \<open>f_Leading\<close> is \<open>Comments.Leading\<close>.
\<close>

datatype Field = Field
  (f_Name: string)
  (f_JSONName: string)
  (f_Kind: Kind)
  (f_IsList: bool)
  (f_MapValue: "Field option")
  (f_Message: MessageDescriptor)
  (f_EnumValues: "string list")
  (f_FieldBehavior: "FieldBehavior list")
  (f_Rules: "FieldRules option")
  (f_Leading: string)

definition IsMap :: "Field \<Rightarrow> bool" where
  "IsMap field = (f_MapValue field \<noteq> None)"

text \<open>
  A message: its descriptor, fields, nested messages, leading comment and the patterns of
  its resource annotation when it has one.
\<close>

datatype Message = Message
  (m_Desc: MessageDescriptor)
  (m_Fields: "Field list")
  (m_Messages: "Message list")
  (m_Leading: string)
  (m_Resource: "string list option")

datatype HttpRule_Pattern =
    Pattern_nil
  | HttpRule_Get string | HttpRule_Post string | HttpRule_Put string
  | HttpRule_Delete string | HttpRule_Patch string
  | HttpRule_Custom string string

record HttpRule =
  hr_Pattern :: HttpRule_Pattern
  hr_Body :: string

record Method =
  me_GoName :: string
  me_Leading :: string
  me_Input :: Message
  me_Output :: Message
  me_Http :: "HttpRule option"

record Service =
  sv_GoName :: string
  sv_Leading :: string
  sv_Methods :: "Method list"

record File =
  fl_Generate :: bool
  fl_Services :: "Service list"
  fl_Messages :: "Message list"

section \<open>The output: the OpenAPI document\<close>

text \<open>
  The scalar attributes of a \<open>v3.Schema\<close> that the generator sets.  \<open>s_Enum\<close> holds the
  \<open>Yaml\<close> text of every \<open>Any\<close>; \<open>s_Minimum\<close> and \<open>s_Maximum\<close> are float64 numbers.
\<close>

record Schema_attrs =
  s_Type :: string
  s_Format :: string
  s_Description :: string
  s_Nullable :: bool
  s_ReadOnly :: bool
  s_WriteOnly :: bool
  s_Pattern :: string
  s_MinLength :: "64 word"
  s_MaxLength :: "64 word"
  s_Minimum :: real
  s_Maximum :: real
  s_Enum :: "string list"
  s_Required :: "string list"

text \<open>
  \<open>*v3.SchemaOrReference\<close>: a reference, or a schema with its attributes, its \<open>Items\<close>
  (the empty list when there is no \<open>ItemsItem\<close>), its \<open>AdditionalProperties\<close> and its
  \<open>Properties\<close>.  A nil pointer is \<open>None\<close> of the option type.
\<close>

datatype SchemaOrReference =
    SchemaOrReference_Reference string
  | SchemaOrReference_Schema
      Schema_attrs
      "SchemaOrReference option list"
      "SchemaOrReference option option"
      "(string \<times> SchemaOrReference) list option"

definition emptySchema :: Schema_attrs where
  "emptySchema =
     \<lparr> s_Type = [], s_Format = [], s_Description = [], s_Nullable = False,
       s_ReadOnly = False, s_WriteOnly = False, s_Pattern = [], s_MinLength = 0,
       s_MaxLength = 0, s_Minimum = 0, s_Maximum = 0, s_Enum = [], s_Required = [] \<rparr>"

text \<open>\<open>&v3.SchemaOrReference{Oneof: &v3.SchemaOrReference_Schema{Schema: &v3.Schema{...}}}\<close>\<close>

definition newSchema :: "Schema_attrs \<Rightarrow> SchemaOrReference" where
  "newSchema attrs = SchemaOrReference_Schema attrs [] None None"

record Info =
  i_Title :: string
  i_Version :: string
  i_Description :: string

record Tag =
  t_Name :: string
  t_Description :: string

record Parameter =
  p_Name :: string
  p_In :: string
  p_Description :: string
  p_Required :: bool
  p_Schema :: SchemaOrReference

record MediaType =
  mt_Schema :: "SchemaOrReference option"

record Response =
  r_Description :: string
  r_Content :: "(string \<times> MediaType) list"

record RequestBody =
  rb_Required :: bool
  rb_Content :: "(string \<times> MediaType) list"

record Operation =
  op_Tags :: "string list"
  op_Summary :: string
  op_Description :: string
  op_OperationId :: string
  op_Parameters :: "Parameter list"
  op_RequestBody :: "RequestBody option"
  op_Responses :: "(string \<times> Response) list"

record PathItem =
  pi_Get :: "Operation option"
  pi_Post :: "Operation option"
  pi_Put :: "Operation option"
  pi_Delete :: "Operation option"
  pi_Patch :: "Operation option"

text \<open>
  The document: \<open>d_Paths\<close> is \<open>d.Paths.Path\<close>, the list of named path items, and
  \<open>d_Schemas\<close> is \<open>d.Components.Schemas.AdditionalProperties\<close>.
\<close>

record Document =
  d_Openapi :: string
  d_Info :: Info
  d_Tags :: "Tag list"
  d_Paths :: "(string \<times> PathItem) list"
  d_Schemas :: "(string \<times> SchemaOrReference) list"

section \<open>The generator\<close>

record Configuration =
  c_Version :: string
  c_Title :: string
  c_Description :: string
  c_Naming :: string
  c_Validate :: bool

text \<open>
  The mutable state of \<open>OpenAPIv3Generator\<close>.  The files of the plugin are passed to the
  functions that read them; the compiled patterns are the constants above.
\<close>

record OpenAPIv3Generator =
  conf :: Configuration
  requiredSchemas :: "string list"
  generatedSchemas :: "string list"

definition NewOpenAPIv3Generator :: "Configuration \<Rightarrow> OpenAPIv3Generator" where
  "NewOpenAPIv3Generator c = \<lparr> conf = c, requiredSchemas = [], generatedSchemas = [] \<rparr>"

subsection \<open>Helpers\<close>

text \<open>\<open>contains\<close> returns true if an array contains a specified string.\<close>

fun contains :: "string list \<Rightarrow> string \<Rightarrow> bool" where
  "contains [] e = False"
| "contains (a # s) e = (if a = e then True else contains s e)"

definition appendUnique :: "string list \<Rightarrow> string \<Rightarrow> string list" where
  "appendUnique s e = (if \<not> contains s e then s @ [e] else s)"

text \<open>\<open>singular\<close> produces the singular form of a collection name.\<close>

definition singular :: "string \<Rightarrow> string" where
  "singular plural =
     (if HasSuffix plural ''ves'' then TrimSuffix plural ''ves'' @ ''f''
      else if HasSuffix plural ''ies'' then TrimSuffix plural ''ies'' @ ''y''
      else if HasSuffix plural ''s'' then TrimSuffix plural ''s''
      else plural)"

text \<open>\<open>filterCommentString\<close> removes line breaks and linter rules from comments.\<close>

definition filterCommentString :: "string \<Rightarrow> bool \<Rightarrow> string" where
  "filterCommentString c removeNL =
     (let comment = afterFirstBar c;
          comment = (if removeNL then removeNewLines comment else comment);
          comment = removeLinterRules comment
      in TrimSpace comment)"

text \<open>
  \<open>filterCommentStringForSummary\<close> of \<open>openapi-v3.go\<close>: the text before the first bar
  when the comment has a bar, the Go name of the method otherwise.
\<close>

definition filterCommentStringForSummary :: "string \<Rightarrow> string \<Rightarrow> string" where
  "filterCommentStringForSummary c goName =
     (let split = Split c (CHR ''|'');
          comment = (if length split \<ge> 2 then hd split else goName);
          comment = removeLinterRules comment
      in TrimSpace comment)"

subsection \<open>Names\<close>

definition formatMessageRef :: "OpenAPIv3Generator \<Rightarrow> string \<Rightarrow> string" where
  "formatMessageRef g name =
     (if c_Naming (conf g) = ''proto'' then name
      else if length name > 1 then ToUpper1 (hd name) @ drop 1 name
      else if length name = 1 then ToLower1 (hd name)
      else name)"

definition getMessageName :: "MessageDescriptor \<Rightarrow> string" where
  "getMessageName message =
     (let prefix = (case md_Parent message of Some parent \<Rightarrow> parent @ ''_'' @ [] | None \<Rightarrow> [])
      in prefix @ md_Name message)"

definition formatMessageName :: "OpenAPIv3Generator \<Rightarrow> Message \<Rightarrow> string" where
  "formatMessageName g message =
     (let name = getMessageName (m_Desc message) in
      if c_Naming (conf g) = ''proto'' then name
      else if length name > 0 then ToUpper1 (hd name) @ drop 1 name
      else name)"

definition formatFieldName :: "OpenAPIv3Generator \<Rightarrow> Field \<Rightarrow> string" where
  "formatFieldName g field =
     (if c_Naming (conf g) = ''proto'' then f_Name field else f_JSONName field)"

fun findAndFormatFieldNameIn :: "OpenAPIv3Generator \<Rightarrow> string \<Rightarrow> Field list \<Rightarrow> string" where
  "findAndFormatFieldNameIn g name [] = name"
| "findAndFormatFieldNameIn g name (field # rest) =
     (if f_Name field = name then formatFieldName g field
      else findAndFormatFieldNameIn g name rest)"

definition findAndFormatFieldName :: "OpenAPIv3Generator \<Rightarrow> string \<Rightarrow> Message \<Rightarrow> string" where
  "findAndFormatFieldName g name inMessage = findAndFormatFieldNameIn g name (m_Fields inMessage)"

text \<open>\<open>fullMessageTypeName\<close> builds the full type name of a message.\<close>

definition fullMessageTypeName :: "MessageDescriptor \<Rightarrow> string" where
  "fullMessageTypeName message =
     (let name = getMessageName message in ''.'' @ md_Package message @ ''.'' @ name)"

text \<open>
  \<open>schemaReferenceForTypeName\<close> returns an OpenAPI JSON Reference to the schema that
  represents a type, and records the type as required.
\<close>

definition schemaReferenceForTypeName ::
  "OpenAPIv3Generator \<Rightarrow> string \<Rightarrow> string \<times> OpenAPIv3Generator" where
  "schemaReferenceForTypeName g typeName =
     (let g' = (if \<not> contains (requiredSchemas g) typeName
                then g\<lparr>requiredSchemas := requiredSchemas g @ [typeName]\<rparr> else g);
          parts = Split typeName (CHR ''.'');
          lastPart = last parts
      in (''#/components/schemas/'' @ formatMessageRef g' lastPart, g'))"

subsection \<open>Schemas of types and fields\<close>

definition schemaOrReferenceForType ::
  "OpenAPIv3Generator \<Rightarrow> string \<Rightarrow> SchemaOrReference option \<times> OpenAPIv3Generator" where
  "schemaOrReferenceForType g typeName =
     (if typeName = ''.google.protobuf.Timestamp'' then
        (Some (newSchema (emptySchema\<lparr>s_Type := ''string'', s_Format := ''date-time''\<rparr>)), g)
      else if typeName = ''.google.type.Date'' then
        (Some (newSchema (emptySchema\<lparr>s_Type := ''string'', s_Format := ''date''\<rparr>)), g)
      else if typeName = ''.google.type.DateTime'' then
        (Some (newSchema (emptySchema\<lparr>s_Type := ''string'', s_Format := ''date-time''\<rparr>)), g)
      else if typeName = ''.google.protobuf.Struct'' then
        (Some (newSchema (emptySchema\<lparr>s_Type := ''object''\<rparr>)), g)
      else if typeName = ''.google.protobuf.Empty'' then
        (None, g)
      else if typeName = ''.google.protobuf.BoolValue'' then
        (Some (newSchema (emptySchema\<lparr>s_Type := ''boolean'', s_Nullable := True\<rparr>)), g)
      else if typeName = ''.google.protobuf.BytesValue'' then
        (Some (newSchema
           (emptySchema\<lparr>s_Type := ''string'', s_Format := ''bytes'', s_Nullable := True\<rparr>)), g)
      else if typeName = ''.google.protobuf.DoubleValue''
            \<or> typeName = ''.google.protobuf.FloatValue'' then
        (Some (newSchema
           (emptySchema\<lparr>s_Type := ''number'', s_Nullable := True, s_Format := ''float''\<rparr>)), g)
      else if typeName = ''.google.protobuf.Int64Value''
            \<or> typeName = ''.google.protobuf.UInt64Value''
            \<or> typeName = ''.google.protobuf.Int32Value''
            \<or> typeName = ''.google.protobuf.UInt32Value'' then
        (Some (newSchema (emptySchema\<lparr>s_Type := ''integer'', s_Nullable := True\<rparr>)), g)
      else if typeName = ''.google.protobuf.StringValue'' then
        (Some (newSchema (emptySchema\<lparr>s_Type := ''string'', s_Nullable := True\<rparr>)), g)
      else
        (let (ref, g') = schemaReferenceForTypeName g typeName
         in (Some (SchemaOrReference_Reference ref), g')))"

text \<open>
  The method \<open>enumKindSchema\<close> of the generator, which \<open>schemaOrReferenceForField\<close>
  calls: the loop over the values skips the default unspecified values.
\<close>

fun enumKindSchemaList :: "string list \<Rightarrow> string list" where
  "enumKindSchemaList [] = []"
| "enumKindSchemaList (v # values) =
     (if HasSuffix v ''_UNSPECIFIED'' then enumKindSchemaList values
      else v # enumKindSchemaList values)"

definition enumKindSchema :: "Field \<Rightarrow> SchemaOrReference" where
  "enumKindSchema field =
     (let list = enumKindSchemaList (f_EnumValues field)
      in newSchema (emptySchema\<lparr>s_Type := ''string'', s_Enum := list\<rparr>))"

text \<open>
  The package-level functions \<open>enumKindSchema\<close>, \<open>enumsToV3Any\<close>, \<open>enumToStringSlice\<close>
  and \<open>has\<close> of the enum helper file.  \<open>enumToStringSliceFrom i\<close> is the loop from
  index \<open>i\<close> on.
\<close>

fun has :: "32 word list \<Rightarrow> int \<Rightarrow> bool" where
  "has [] idx = False"
| "has (v # list) idx = (if sint v = idx then True else has list idx)"

fun enumToStringSliceFrom :: "nat \<Rightarrow> string list \<Rightarrow> 32 word list \<Rightarrow> string list" where
  "enumToStringSliceFrom i [] enumValues = []"
| "enumToStringSliceFrom i (v # values) enumValues =
     (if length enumValues = 0 \<or> has enumValues (int i) then
        (if HasSuffix v ''_UNSPECIFIED'' then enumToStringSliceFrom (Suc i) values enumValues
         else v # enumToStringSliceFrom (Suc i) values enumValues)
      else enumToStringSliceFrom (Suc i) values enumValues)"

definition enumToStringSlice :: "Field \<Rightarrow> 32 word list \<Rightarrow> string list" where
  "enumToStringSlice field enumValues = enumToStringSliceFrom 0 (f_EnumValues field) enumValues"

definition enumsToV3Any :: "Field \<Rightarrow> 32 word list \<Rightarrow> string list" where
  "enumsToV3Any field enumValues = enumToStringSlice field []"

definition enumKindSchema_func :: "Field \<Rightarrow> SchemaOrReference" where
  "enumKindSchema_func field =
     (let list = enumsToV3Any field []
      in newSchema (emptySchema\<lparr>s_Format := ''enum'', s_Type := ''string'', s_Enum := list\<rparr>))"

text \<open>
  \<open>schemaOrReferenceForField\<close>.  For a kind the switch does not know, \<open>kindSchema\<close> stays
  nil.
\<close>

definition kindSchemaFor ::
  "OpenAPIv3Generator \<Rightarrow> Field \<Rightarrow> SchemaOrReference option \<times> OpenAPIv3Generator" where
  "kindSchemaFor g field =
     (let kind = f_Kind field in
      if kind = MessageKind then
        schemaOrReferenceForType g (fullMessageTypeName (f_Message field))
      else if kind = StringKind then
        (Some (newSchema (emptySchema\<lparr>s_Type := ''string''\<rparr>)), g)
      else if kind \<in> {Int32Kind, Sint32Kind, Uint32Kind, Int64Kind, Sint64Kind, Uint64Kind,
                       Sfixed32Kind, Fixed32Kind, Sfixed64Kind, Fixed64Kind} then
        (Some (newSchema (emptySchema\<lparr>s_Type := ''integer'', s_Format := Kind_String kind\<rparr>)), g)
      else if kind = EnumKind then
        (Some (enumKindSchema field), g)
      else if kind = BoolKind then
        (Some (newSchema (emptySchema\<lparr>s_Type := ''boolean''\<rparr>)), g)
      else if kind = FloatKind \<or> kind = DoubleKind then
        (Some (newSchema (emptySchema\<lparr>s_Type := ''number'', s_Format := Kind_String kind\<rparr>)), g)
      else if kind = BytesKind then
        (Some (newSchema (emptySchema\<lparr>s_Type := ''string'', s_Format := ''bytes''\<rparr>)), g)
      else (None, g))"

fun schemaOrReferenceForField ::
  "OpenAPIv3Generator \<Rightarrow> Field \<Rightarrow> SchemaOrReference option \<times> OpenAPIv3Generator" where
  "schemaOrReferenceForField g (Field name json kind isList mapValue msg enums fb rules leading) =
     (case mapValue of
        Some v \<Rightarrow>
          (let (vs, g') = schemaOrReferenceForField g v
           in (Some (SchemaOrReference_Schema (emptySchema\<lparr>s_Type := ''object''\<rparr>) []
                       (Some vs) None), g'))
      | None \<Rightarrow>
          (let field = Field name json kind isList mapValue msg enums fb rules leading;
               (kindSchema, g') = kindSchemaFor g field
           in if kind = MessageKind \<and> kindSchema = None then (None, g')
              else if isList then
                (Some (SchemaOrReference_Schema (emptySchema\<lparr>s_Type := ''array''\<rparr>)
                         [kindSchema] None None), g')
              else (kindSchema, g')))"

subsection \<open>Validation rules\<close>

text \<open>The three rule blocks that \<open>addValidationRules\<close> and \<open>fieldRule\<close> share.\<close>

definition stringRulesSchema :: "StringRules \<Rightarrow> Schema_attrs \<Rightarrow> Schema_attrs" where
  "stringRulesSchema stringRules schema =
     (let schema =
            (if GetEmail stringRules then schema\<lparr>s_Format := ''email''\<rparr>
             else if GetHostname stringRules then schema\<lparr>s_Format := ''hostname''\<rparr>
             else if GetIp stringRules then schema\<lparr>s_Format := ''ip''\<rparr>
             else if GetIpv4 stringRules then schema\<lparr>s_Format := ''ipv4''\<rparr>
             else if GetIpv6 stringRules then schema\<lparr>s_Format := ''ipv6''\<rparr>
             else if GetUri stringRules then schema\<lparr>s_Format := ''uri''\<rparr>
             else if GetUriRef stringRules then schema\<lparr>s_Format := ''uri_ref''\<rparr>
             else if GetUuid stringRules then schema\<lparr>s_Format := ''uuid''\<rparr>
             else schema);
          schema = (if 0 < unat (GetMinLen stringRules)
                    then schema\<lparr>s_MinLength := GetMinLen stringRules\<rparr> else schema);
          schema = (if 0 < unat (GetMaxLen stringRules)
                    then schema\<lparr>s_MaxLength := GetMaxLen stringRules\<rparr> else schema);
          schema = (if GetPattern stringRules \<noteq> []
                    then schema\<lparr>s_Pattern := GetPattern stringRules\<rparr> else schema)
      in schema)"

definition int32RulesSchema :: "Int32Rules \<Rightarrow> Schema_attrs \<Rightarrow> Schema_attrs" where
  "int32RulesSchema int32Rules schema =
     (let schema = (if 0 < sint (GetGte32 int32Rules)
                    then schema\<lparr>s_Minimum := float64 (sint (GetGte32 int32Rules))\<rparr> else schema);
          schema = (if 0 < sint (GetLte32 int32Rules)
                    then schema\<lparr>s_Maximum := float64 (sint (GetLte32 int32Rules))\<rparr> else schema)
      in schema)"

definition int64RulesSchema :: "Int64Rules \<Rightarrow> Schema_attrs \<Rightarrow> Schema_attrs" where
  "int64RulesSchema int64Rules schema =
     (let schema = (if 0 < sint (GetGte64 int64Rules)
                    then schema\<lparr>s_Minimum := float64 (sint (GetGte64 int64Rules))\<rparr> else schema);
          schema = (if 0 < sint (GetLte64 int64Rules)
                    then schema\<lparr>s_Maximum := float64 (sint (GetLte64 int64Rules))\<rparr> else schema)
      in schema)"

text \<open>
  \<open>addValidationRules\<close> of \<open>validate.go\<close> (\<open>openapi-v3.go\<close> holds the same text).  The
  schema is changed in place in Go; the model returns the changed schema.
\<close>

definition addValidationRules :: "SchemaOrReference \<Rightarrow> Field \<Rightarrow> SchemaOrReference" where
  "addValidationRules fieldSchema field =
     (case fieldSchema of
        SchemaOrReference_Reference ref \<Rightarrow> fieldSchema
      | SchemaOrReference_Schema schema items additional properties \<Rightarrow>
          if IsMap field then fieldSchema
          else
            (let fieldRules = f_Rules field;
                 kind = f_Kind field;
                 schema' =
                   (if kind = MessageKind then schema
                    else if kind = StringKind then
                      (case GetString fieldRules of
                         Some stringRules \<Rightarrow> stringRulesSchema stringRules schema
                       | None \<Rightarrow> schema)
                    else if kind = Int32Kind then
                      (case GetInt32 fieldRules of
                         Some int32Rules \<Rightarrow> int32RulesSchema int32Rules schema
                       | None \<Rightarrow> schema)
                    else if kind = Int64Kind then
                      (case GetInt64 fieldRules of
                         Some int64Rules \<Rightarrow> int64RulesSchema int64Rules schema
                       | None \<Rightarrow> schema)
                    else schema)
             in SchemaOrReference_Schema schema' items additional properties))"

text \<open>
  \<open>fieldRule\<close> of the later revision of the validation file.  In the enum case the branch
  for \<open>NotIn\<close> dereferences \<open>Const\<close>, which is nil there: the call panics.
\<close>

datatype go_panic = NilPointerDereference

definition fieldRule :: "FieldRules option \<Rightarrow> Field \<Rightarrow> Schema_attrs \<Rightarrow> go_panic + Schema_attrs" where
  "fieldRule fieldRules field schema =
     (let kind = f_Kind field in
      if kind = MessageKind then Inr schema
      else if kind = StringKind then
        (case GetString fieldRules of
           None \<Rightarrow> Inr schema
         | Some stringRules \<Rightarrow> Inr (stringRulesSchema stringRules schema))
      else if kind = Int32Kind then
        (case GetInt32 fieldRules of
           None \<Rightarrow> Inr schema
         | Some int32Rules \<Rightarrow> Inr (int32RulesSchema int32Rules schema))
      else if kind = Int64Kind then
        (case GetInt64 fieldRules of
           None \<Rightarrow> Inr schema
         | Some int64Rules \<Rightarrow> Inr (int64RulesSchema int64Rules schema))
      else if kind = EnumKind then
        (case GetEnum fieldRules of
           None \<Rightarrow> Inr schema
         | Some enumRules \<Rightarrow>
             (case er_Const enumRules of
                Some c \<Rightarrow> Inr (schema\<lparr>s_Enum := [Itoa (sint c)]\<rparr>)
              | None \<Rightarrow>
                  if er_NotIn enumRules \<noteq> [] then Inl NilPointerDereference else Inr schema))
      else Inr schema)"

subsection \<open>Operations\<close>

definition coalesceToStringSchema :: "SchemaOrReference option \<Rightarrow> string list \<Rightarrow> SchemaOrReference" where
  "coalesceToStringSchema schema allowed =
     (let stringSchema = newSchema (emptySchema\<lparr>s_Type := ''string''\<rparr>) in
      case schema of
        Some (SchemaOrReference_Schema t items additional properties) \<Rightarrow>
          if contains allowed (s_Type t)
          then SchemaOrReference_Schema t items additional properties
          else stringSchema
      | _ \<Rightarrow> stringSchema)"

text \<open>
  The loop over the simple path parameters like \<open>{id}\<close>; the state of the loop is the
  list of covered parameters, the path and the list of path parameters.
\<close>

fun simplePathParameters ::
  "OpenAPIv3Generator \<Rightarrow> Message \<Rightarrow> string list \<Rightarrow> string list \<times> string \<times> string list
     \<Rightarrow> string list \<times> string \<times> string list" where
  "simplePathParameters g inputMessage [] st = st"
| "simplePathParameters g inputMessage (m # allMatches) (coveredParameters, path, pathParameters) =
     (let pathParameter = findAndFormatFieldName g m inputMessage
      in simplePathParameters g inputMessage allMatches
           (coveredParameters @ [m], Replace1 path m pathParameter,
            pathParameters @ [pathParameter]))"

definition pathParameterOf :: "string \<Rightarrow> string \<Rightarrow> Parameter" where
  "pathParameterOf name description =
     \<lparr> p_Name = name, p_In = ''path'', p_Description = description, p_Required = True,
       p_Schema = newSchema (emptySchema\<lparr>s_Type := ''string''\<rparr>) \<rparr>"

text \<open>
  The loop over the parts of a starred path, two at a time: the result is the rewritten
  parts and the named path parameters.
\<close>

fun namedPathParts ::
  "OpenAPIv3Generator \<Rightarrow> Message \<Rightarrow> string list \<Rightarrow> string list \<times> string list" where
  "namedPathParts g inputMessage (section # next # parts) =
     (let namedPathParameter = singular (findAndFormatFieldName g section inputMessage);
          (parts', names) = namedPathParts g inputMessage parts
      in (section # (''{'' @ namedPathParameter @ ''}'') # parts', namedPathParameter # names))"
| "namedPathParts g inputMessage parts = (parts, [])"

definition namedPathParameters ::
  "OpenAPIv3Generator \<Rightarrow> Message \<Rightarrow> string list \<times> string
     \<Rightarrow> string list \<times> string \<times> string list" where
  "namedPathParameters g inputMessage st =
     (let (coveredParameters, path) = st in
      case namedPathPatternFind path of
        None \<Rightarrow> (coveredParameters, path, [])
      | Some (m0, m1, starredPath) \<Rightarrow>
          (let (parts, names) = namedPathParts g inputMessage (Split starredPath (CHR ''/''));
               newPath = Join parts ''/''
           in (coveredParameters @ [m1], Replace1 path m0 newPath, names)))"

text \<open>The loop that adds any unhandled fields in the request message as query parameters.\<close>

fun queryParameters ::
  "OpenAPIv3Generator \<Rightarrow> string list \<Rightarrow> Field list \<Rightarrow> Parameter list \<times> OpenAPIv3Generator" where
  "queryParameters g coveredParameters [] = ([], g)"
| "queryParameters g coveredParameters (field # rest) =
     (if \<not> contains coveredParameters (f_Name field) then
        (let bodyFieldName = formatFieldName g field;
             fieldDescription = filterCommentString (f_Leading field) True;
             (schema, g1) = schemaOrReferenceForField g field;
             schema = coalesceToStringSchema schema [''number'', ''integer''];
             schema = addValidationRules schema field;
             (parameters, g2) = queryParameters g1 coveredParameters rest
         in (\<lparr> p_Name = bodyFieldName, p_In = ''query'', p_Description = fieldDescription,
               p_Required = False, p_Schema = schema \<rparr> # parameters, g2))
      else queryParameters g coveredParameters rest)"

definition responseContentForMessage ::
  "OpenAPIv3Generator \<Rightarrow> Message \<Rightarrow> (string \<times> MediaType) list \<times> OpenAPIv3Generator" where
  "responseContentForMessage g outputMessage =
     (let typeName = fullMessageTypeName (m_Desc outputMessage) in
      if typeName = ''.google.protobuf.Empty'' then ([], g)
      else if typeName = ''.google.protobuf.Struct'' then ([], g)
      else if typeName = ''.google.api.HttpBody'' then
        ([(''application/octet-stream'', \<lparr> mt_Schema = None \<rparr>)], g)
      else
        (let (ref, g') =
               schemaReferenceForTypeName g (fullMessageTypeName (m_Desc outputMessage))
         in ([(''application/json'', \<lparr> mt_Schema = Some (SchemaOrReference_Reference ref) \<rparr>)],
             g')))"

text \<open>
  The type names of the body field: the first field of the input message with the name
  of the body decides, by its kind, the scalar type name or the message type name.
\<close>

fun bodyFieldTypeNames :: "string \<Rightarrow> Field list \<Rightarrow> string \<times> string" where
  "bodyFieldTypeNames bodyField [] = ([], [])"
| "bodyFieldTypeNames bodyField (field # rest) =
     (if f_Name field = bodyField then
        (if f_Kind field = StringKind then (''string'', [])
         else if f_Kind field = MessageKind then ([], fullMessageTypeName (f_Message field))
         else ([], []))
      else bodyFieldTypeNames bodyField rest)"

definition requestBodyFor ::
  "OpenAPIv3Generator \<Rightarrow> string \<Rightarrow> Message \<Rightarrow> RequestBody \<times> OpenAPIv3Generator" where
  "requestBodyFor g bodyField inputMessage =
     (let (bodyFieldScalarTypeName, bodyFieldMessageTypeName) =
            (if bodyField = ''*'' then ([], fullMessageTypeName (m_Desc inputMessage))
             else bodyFieldTypeNames bodyField (m_Fields inputMessage));
          (requestSchema, g') =
            (if bodyFieldScalarTypeName \<noteq> [] then
               (Some (newSchema (emptySchema\<lparr>s_Type := bodyFieldScalarTypeName\<rparr>)), g)
             else if bodyFieldMessageTypeName \<noteq> [] then
               (if bodyFieldMessageTypeName = ''.google.protobuf.Empty''
                   \<or> bodyFieldMessageTypeName = ''.google.protobuf.Struct'' then
                  (Some (newSchema (emptySchema\<lparr>s_Type := ''object''\<rparr>)), g)
                else
                  (let (ref, g1) = schemaReferenceForTypeName g bodyFieldMessageTypeName
                   in (Some (SchemaOrReference_Reference ref), g1)))
             else (None, g))
      in (\<lparr> rb_Required = True,
            rb_Content = [(''application/json'', \<lparr> mt_Schema = requestSchema \<rparr>)] \<rparr>, g'))"

text \<open>
  \<open>buildOperationV3\<close> constructs an operation for a set of values.  (The parameter
  \<open>file\<close> of the Go function is never read.)
\<close>

definition buildOperationV3 ::
  "OpenAPIv3Generator \<Rightarrow> string \<Rightarrow> string \<Rightarrow> string \<Rightarrow> string \<Rightarrow> string \<Rightarrow> string
     \<Rightarrow> Message \<Rightarrow> Message \<Rightarrow> (Operation \<times> string) \<times> OpenAPIv3Generator" where
  "buildOperationV3 g summary operationID tagName description path bodyField
     inputMessage outputMessage =
     (let coveredParameters = (if bodyField \<noteq> [] then [bodyField] else []);
          (coveredParameters, path, pathParameters) =
             simplePathParameters g inputMessage (pathPatternFindAll path)
               (coveredParameters, path, []);
          parameters = map (\<lambda>pathParameter. pathParameterOf pathParameter []) pathParameters;
          (coveredParameters, path, namedPathParameters) =
             namedPathParameters g inputMessage (coveredParameters, path);
          parameters = parameters @
             map (\<lambda>namedPathParameter.
                    pathParameterOf namedPathParameter (''The '' @ namedPathParameter @ '' id.''))
               namedPathParameters;
          (query, g1) =
             (if bodyField \<noteq> ''*''
              then queryParameters g coveredParameters (m_Fields inputMessage) else ([], g));
          parameters = parameters @ query;
          (content, g2) = responseContentForMessage g1 outputMessage;
          responses = [(''200'', \<lparr> r_Description = ''OK'', r_Content = content \<rparr>)];
          op = \<lparr> op_Tags = [tagName], op_Summary = summary, op_Description = description,
                 op_OperationId = operationID, op_Parameters = parameters,
                 op_RequestBody = None, op_Responses = responses \<rparr>;
          (op, g3) =
             (if bodyField \<noteq> [] then
                (let (body, g') = requestBodyFor g2 bodyField inputMessage
                 in (op\<lparr>op_RequestBody := Some body\<rparr>, g'))
              else (op, g2))
      in ((op, path), g3))"

text \<open>\<open>addOperationV3\<close> adds an operation to the specified path/method.\<close>

definition emptyPathItem :: PathItem where
  "emptyPathItem =
     \<lparr> pi_Get = None, pi_Post = None, pi_Put = None, pi_Delete = None, pi_Patch = None \<rparr>"

definition setOperation :: "string \<Rightarrow> Operation \<Rightarrow> PathItem \<Rightarrow> PathItem" where
  "setOperation methodName op item =
     (if methodName = ''GET'' then item\<lparr>pi_Get := Some op\<rparr>
      else if methodName = ''POST'' then item\<lparr>pi_Post := Some op\<rparr>
      else if methodName = ''PUT'' then item\<lparr>pi_Put := Some op\<rparr>
      else if methodName = ''DELETE'' then item\<lparr>pi_Delete := Some op\<rparr>
      else if methodName = ''PATCH'' then item\<lparr>pi_Patch := Some op\<rparr>
      else item)"

text \<open>
  The search for the path item with the name of the path, which ends at the first hit;
  the item found, or the new item appended when there is none, gets the operation.
\<close>

fun addOperationToPaths ::
  "(string \<times> PathItem) list \<Rightarrow> Operation \<Rightarrow> string \<Rightarrow> string \<Rightarrow> (string \<times> PathItem) list" where
  "addOperationToPaths [] op path methodName =
     [(path, setOperation methodName op emptyPathItem)]"
| "addOperationToPaths (namedPathItem # rest) op path methodName =
     (if fst namedPathItem = path
      then (fst namedPathItem, setOperation methodName op (snd namedPathItem)) # rest
      else namedPathItem # addOperationToPaths rest op path methodName)"

definition addOperationV3 :: "Document \<Rightarrow> Operation \<Rightarrow> string \<Rightarrow> string \<Rightarrow> Document" where
  "addOperationV3 d op path methodName =
     d\<lparr>d_Paths := addOperationToPaths (d_Paths d) op path methodName\<rparr>"

subsection \<open>Paths\<close>

text \<open>
  The switch over the pattern of an HTTP rule: the path and the method name.  The method
  name stays empty for a custom pattern and for a rule with no pattern.
\<close>

fun patternPathAndMethod :: "HttpRule_Pattern \<Rightarrow> string \<times> string" where
  "patternPathAndMethod (HttpRule_Get p) = (p, ''GET'')"
| "patternPathAndMethod (HttpRule_Post p) = (p, ''POST'')"
| "patternPathAndMethod (HttpRule_Put p) = (p, ''PUT'')"
| "patternPathAndMethod (HttpRule_Delete p) = (p, ''DELETE'')"
| "patternPathAndMethod (HttpRule_Patch p) = (p, ''PATCH'')"
| "patternPathAndMethod (HttpRule_Custom kind p) = (''custom-unsupported'', [])"
| "patternPathAndMethod Pattern_nil = (''unknown-unsupported'', [])"

text \<open>
  The loop over the methods of a service; the state is the generator, the document and
  \<open>annotationsCount\<close>.
\<close>

fun addMethodsV3 ::
  "Service \<Rightarrow> Method list \<Rightarrow> OpenAPIv3Generator \<times> Document \<times> nat
     \<Rightarrow> OpenAPIv3Generator \<times> Document \<times> nat" where
  "addMethodsV3 service [] st = st"
| "addMethodsV3 service (method # methods) (g, d, annotationsCount) =
     (let comment = filterCommentString (me_Leading method) False;
          inputMessage = me_Input method;
          outputMessage = me_Output method;
          summary = filterCommentStringForSummary (me_Leading method) (me_GoName method);
          operationID = sv_GoName service @ ''_'' @ me_GoName method;
          (annotationsCount, path, methodName, body) =
             (case me_Http method of
                Some rule \<Rightarrow>
                  (let (path, methodName) = patternPathAndMethod (hr_Pattern rule)
                   in (annotationsCount + 1, path, methodName, hr_Body rule))
              | None \<Rightarrow> (annotationsCount, [], [], []));
          (g, d) =
             (if methodName \<noteq> [] then
                (let ((op, path2), g') =
                       buildOperationV3 g summary operationID (sv_GoName service) comment path
                         body inputMessage outputMessage
                 in (g', addOperationV3 d op path2 methodName))
              else (g, d))
      in addMethodsV3 service methods (g, d, annotationsCount))"

fun addServicesV3 ::
  "Service list \<Rightarrow> OpenAPIv3Generator \<times> Document \<Rightarrow> OpenAPIv3Generator \<times> Document" where
  "addServicesV3 [] st = st"
| "addServicesV3 (service # services) (g, d) =
     (let (g, d, annotationsCount) = addMethodsV3 service (sv_Methods service) (g, d, 0);
          d = (if annotationsCount > 0 then
                 (let comment = filterCommentString (sv_Leading service) False
                  in d\<lparr>d_Tags := d_Tags d @
                         [\<lparr> t_Name = sv_GoName service, t_Description = comment \<rparr>]\<rparr>)
               else d)
      in addServicesV3 services (g, d))"

text \<open>\<open>addPathsToDocumentV3\<close> adds paths from a specified file descriptor.\<close>

definition addPathsToDocumentV3 ::
  "OpenAPIv3Generator \<times> Document \<Rightarrow> File \<Rightarrow> OpenAPIv3Generator \<times> Document" where
  "addPathsToDocumentV3 st file = addServicesV3 (fl_Services file) st"

subsection \<open>Component schemas\<close>

text \<open>
  The loop over the fields of a message in \<open>addSchemasToDocumentV3\<close>; the state is the
  generator, the properties and the names of the required properties.
\<close>

fun definitionProperties ::
  "string \<Rightarrow> Field list \<Rightarrow> OpenAPIv3Generator \<times> (string \<times> SchemaOrReference) list \<times> string list
     \<Rightarrow> OpenAPIv3Generator \<times> (string \<times> SchemaOrReference) list \<times> string list" where
  "definitionProperties pattern [] st = st"
| "definitionProperties pattern (field # rest) (g, properties, requiredProperties) =
     (let outputOnly = (OUTPUT_ONLY \<in> set (f_FieldBehavior field));
          required = (REQUIRED \<in> set (f_FieldBehavior field));
          inputOnly = (INPUT_ONLY \<in> set (f_FieldBehavior field));
          (fieldSchema, g1) = schemaOrReferenceForField g field
      in case fieldSchema of
           None \<Rightarrow> definitionProperties pattern rest (g1, properties, requiredProperties)
         | Some fieldSchema \<Rightarrow>
             (let (fieldSchema, requiredProperties) =
                    (case fieldSchema of
                       SchemaOrReference_Schema schema items additional props \<Rightarrow>
                         (let schema =
                                (if f_Name field = ''name'' \<and> pattern \<noteq> []
                                 then schema\<lparr>s_Pattern :=
                                        ''^'' @ replacePathParams pattern @ ''$''\<rparr>
                                 else schema);
                              schema = schema\<lparr>s_Description :=
                                         filterCommentString (f_Leading field) True\<rparr>;
                              schema = (if outputOnly then schema\<lparr>s_ReadOnly := True\<rparr>
                                        else schema);
                              schema = (if inputOnly then schema\<lparr>s_WriteOnly := True\<rparr>
                                        else schema)
                          in (SchemaOrReference_Schema schema items additional props,
                              if required then requiredProperties @ [formatFieldName g1 field]
                              else requiredProperties))
                     | SchemaOrReference_Reference ref \<Rightarrow> (fieldSchema, requiredProperties));
                  fieldSchema = (if c_Validate (conf g1)
                                 then addValidationRules fieldSchema field else fieldSchema)
              in definitionProperties pattern rest
                   (g1, properties @ [(formatFieldName g1 field, fieldSchema)],
                    requiredProperties)))"

text \<open>
  \<open>addSchemasToDocumentV3\<close> adds info from one file descriptor: for each message, the
  nested messages first, then the message itself when it is required and not yet
  generated.
\<close>

fun addSchemasToDocumentV3 ::
  "OpenAPIv3Generator \<times> Document \<Rightarrow> Message list \<Rightarrow> OpenAPIv3Generator \<times> Document" where
  "addSchemasToDocumentV3 st [] = st"
| "addSchemasToDocumentV3 st (Message desc fs nested leading resource # messages) =
     (let message = Message desc fs nested leading resource;
          (g, d) = addSchemasToDocumentV3 st nested;
          pattern = (case resource of Some (p # ps) \<Rightarrow> p | _ \<Rightarrow> []);
          typeName = fullMessageTypeName desc
      in if \<not> contains (requiredSchemas g) typeName \<or> contains (generatedSchemas g) typeName
         then addSchemasToDocumentV3 (g, d) messages
         else
           (let g = g\<lparr>generatedSchemas := generatedSchemas g @ [typeName]\<rparr>;
                messageDescription = filterCommentString leading True;
                (g, properties, requiredProperties) = definitionProperties pattern fs (g, [], []);
                d = d\<lparr>d_Schemas := d_Schemas d @
                       [(formatMessageName g message,
                         SchemaOrReference_Schema
                           (emptySchema\<lparr>s_Description := messageDescription,
                                         s_Required := requiredProperties\<rparr>)
                           [] None (Some properties))]\<rparr>
            in addSchemasToDocumentV3 (g, d) messages))"

subsection \<open>The document\<close>

text \<open>
  \<open>sort.Slice\<close> of the Go library (the module asks for Go 1.23).  The library sorts a slice
  of at most 12 elements by insertion: every element in turn moves to the left while it
  is less than its left neighbour.  \<open>insertionStep lt x rp\<close> inserts \<open>x\<close> into the sorted
  prefix, which is held reversed, so that its head is the left neighbour of \<open>x\<close>.

  A longer slice is sorted by the pattern-defeating quicksort of the library, which is
  not stable and not part of this program.  Of it only the contract of \<open>sort.Slice\<close> is
  modelled, \<open>sortedSlice\<close>: the result is a rearrangement of the slice in which no element
  is less than an element before it.  So for a slice of more than 12 elements the order
  among elements none of which is less than the other is left open.
\<close>

fun insertionStep :: "('a \<Rightarrow> 'a \<Rightarrow> bool) \<Rightarrow> 'a \<Rightarrow> 'a list \<Rightarrow> 'a list" where
  "insertionStep lt x [] = [x]"
| "insertionStep lt x (y # rp) =
     (if lt x y then y # insertionStep lt x rp else x # y # rp)"

definition insertionSort :: "('a \<Rightarrow> 'a \<Rightarrow> bool) \<Rightarrow> 'a list \<Rightarrow> 'a list" where
  "insertionSort lt pairs = rev (foldl (\<lambda>rp x. insertionStep lt x rp) [] pairs)"

definition sortedSlice :: "('a \<Rightarrow> 'a \<Rightarrow> bool) \<Rightarrow> 'a list \<Rightarrow> 'a list \<Rightarrow> bool" where
  "sortedSlice lt pairs result \<longleftrightarrow>
     mset result = mset pairs \<and> sorted_wrt (\<lambda>a b. \<not> lt b a) result"

definition sortSlice :: "('a \<Rightarrow> 'a \<Rightarrow> bool) \<Rightarrow> 'a list \<Rightarrow> 'a list" where
  "sortSlice lt pairs =
     (if length pairs \<le> 12 then insertionSort lt pairs
      else (SOME result. sortedSlice lt pairs result))"

text \<open>The first part of \<open>buildDocumentV3\<close>: the empty document and the paths of the files.\<close>

definition newDocument :: "OpenAPIv3Generator \<Rightarrow> Document" where
  "newDocument g =
     \<lparr> d_Openapi = ''3.0.3'',
       d_Info = \<lparr> i_Title = c_Title (conf g), i_Version = c_Version (conf g),
                  i_Description = c_Description (conf g) \<rparr>,
       d_Tags = [], d_Paths = [], d_Schemas = [] \<rparr>"

fun addPathsOfFiles ::
  "File list \<Rightarrow> OpenAPIv3Generator \<times> Document \<Rightarrow> OpenAPIv3Generator \<times> Document" where
  "addPathsOfFiles [] st = st"
| "addPathsOfFiles (file # files) st =
     addPathsOfFiles files (if fl_Generate file then addPathsToDocumentV3 st file else st)"

text \<open>If there is only 1 service, then use its title for the document, if the document
  is missing it.\<close>

definition singleServiceTitle :: "Document \<Rightarrow> Document" where
  "singleServiceTitle d =
     (case d_Tags d of
        [tag] \<Rightarrow>
          (let info = d_Info d;
               info = (if i_Title info = [] \<and> t_Name tag \<noteq> []
                       then info\<lparr>i_Title := t_Name tag @ '' API''\<rparr> else info);
               info = (if i_Description info = []
                       then info\<lparr>i_Description := t_Description tag\<rparr> else info)
           in d\<lparr>d_Info := info, d_Tags := [tag\<lparr>t_Description := []\<rparr>]\<rparr>)
      | _ \<Rightarrow> d)"

text \<open>
  The schema loop of \<open>buildDocumentV3\<close>.  One pass calls \<open>addSchemasToDocumentV3\<close> for
  the messages of every file and then drops the names that were required when the pass
  began.  The loop may not return, so its result is an option.
\<close>

fun addSchemasOfFiles ::
  "File list \<Rightarrow> OpenAPIv3Generator \<times> Document \<Rightarrow> OpenAPIv3Generator \<times> Document" where
  "addSchemasOfFiles [] st = st"
| "addSchemasOfFiles (file # files) st =
     addSchemasOfFiles files (addSchemasToDocumentV3 st (fl_Messages file))"

definition schemaPass ::
  "File list \<Rightarrow> OpenAPIv3Generator \<times> Document \<Rightarrow> OpenAPIv3Generator \<times> Document" where
  "schemaPass files st =
     (let count = length (requiredSchemas (fst st));
          (g, d) = addSchemasOfFiles files st
      in (g\<lparr>requiredSchemas := drop count (requiredSchemas g)\<rparr>, d))"

partial_function (option) schemaLoop ::
  "File list \<Rightarrow> OpenAPIv3Generator \<times> Document \<Rightarrow> (OpenAPIv3Generator \<times> Document) option" where
  "schemaLoop files st =
     (if length (requiredSchemas (fst st)) > 0 then schemaLoop files (schemaPass files st)
      else Some st)"

declare schemaLoop.simps [code]

definition sortDocument :: "Document \<Rightarrow> Document" where
  "sortDocument d =
     d\<lparr>d_Tags := sortSlice (\<lambda>a b. t_Name a < t_Name b) (d_Tags d),
       d_Paths := sortSlice (\<lambda>a b. fst a < fst b) (d_Paths d),
       d_Schemas := sortSlice (\<lambda>a b. fst a < fst b) (d_Schemas d)\<rparr>"

text \<open>
  \<open>buildDocumentV3\<close> builds an OpenAPIv3 document for a plugin request.  The result is
  the document together with the final state of the generator.
\<close>

definition buildDocumentV3 ::
  "OpenAPIv3Generator \<Rightarrow> File list \<Rightarrow> (OpenAPIv3Generator \<times> Document) option" where
  "buildDocumentV3 g files =
     (let (g, d) = addPathsOfFiles files (g, newDocument g);
          d = singleServiceTitle d
      in case schemaLoop files (g, d) of
           None \<Rightarrow> None
         | Some (g, d) \<Rightarrow> Some (g, sortDocument d))"

section \<open>Example inputs\<close>

definition asciiLetters :: "char set" where
  "asciiLetters = set ''abcdefghijklmnopqrstuvwxyzABCDEFGHIJKLMNOPQRSTUVWXYZ''"

definition exampleConfiguration :: Configuration where
  "exampleConfiguration =
     \<lparr> c_Version = ''1.2.3'', c_Title = [], c_Description = [], c_Naming = [],
       c_Validate = True \<rparr>"

definition exampleGenerator :: OpenAPIv3Generator where
  "exampleGenerator = NewOpenAPIv3Generator exampleConfiguration"

text \<open>The descriptor of a top-level message.\<close>

definition topLevel :: "string \<Rightarrow> string \<Rightarrow> MessageDescriptor" where
  "topLevel package name = \<lparr> md_Package = package, md_Parent = None, md_Name = name \<rparr>"

text \<open>An enum-typed field with the given value names.\<close>

definition enumField :: "string list \<Rightarrow> Field" where
  "enumField names =
     Field ''status'' ''status'' EnumKind False None (topLevel [] []) names [] None []"

text \<open>A field of a scalar kind with validation rules.\<close>

definition scalarField :: "string \<Rightarrow> Kind \<Rightarrow> FieldRules option \<Rightarrow> Field" where
  "scalarField name kind rules =
     Field name name kind False None (topLevel [] []) [] [] rules []"

text \<open>Operations with a given identifier, and a method with a given HTTP rule.\<close>

definition exampleOperation :: "string \<Rightarrow> Operation" where
  "exampleOperation operationID =
     \<lparr> op_Tags = [], op_Summary = [], op_Description = [], op_OperationId = operationID,
       op_Parameters = [], op_RequestBody = None, op_Responses = [] \<rparr>"

definition emptyMessage :: "string \<Rightarrow> Message" where
  "emptyMessage name = Message (topLevel ''pkg'' name) [] [] [] None"

definition exampleMethod :: "string \<Rightarrow> HttpRule option \<Rightarrow> Method" where
  "exampleMethod name rule =
     \<lparr> me_GoName = name, me_Leading = [], me_Input = emptyMessage ''Request'',
       me_Output = emptyMessage ''Reply'', me_Http = rule \<rparr>"

section \<open>Reading the document\<close>

text \<open>
  The operation that a document holds for a path and a verb: the first path item with
  the name of the path, then the field of the verb.
\<close>

definition verbs :: "string set" where
  "verbs = {''GET'', ''POST'', ''PUT'', ''DELETE'', ''PATCH''}"

definition operationOf :: "string \<Rightarrow> PathItem \<Rightarrow> Operation option" where
  "operationOf verb item =
     (if verb = ''GET'' then pi_Get item
      else if verb = ''POST'' then pi_Post item
      else if verb = ''PUT'' then pi_Put item
      else if verb = ''DELETE'' then pi_Delete item
      else if verb = ''PATCH'' then pi_Patch item
      else None)"

definition lookupOperation :: "Document \<Rightarrow> string \<Rightarrow> string \<Rightarrow> Operation option" where
  "lookupOperation d path verb =
     (case map_of (d_Paths d) path of None \<Rightarrow> None | Some item \<Rightarrow> operationOf verb item)"

text \<open>A sequence of calls of \<open>addOperationV3\<close>, each with its operation, path and method name.\<close>

fun addOperations :: "Document \<Rightarrow> (Operation \<times> string \<times> string) list \<Rightarrow> Document" where
  "addOperations d [] = d"
| "addOperations d ((op, path, methodName) # calls) =
     addOperations (addOperationV3 d op path methodName) calls"

text \<open>The last operation that a sequence of calls gives for a path and a verb.\<close>

fun lastCall ::
  "(Operation \<times> string \<times> string) list \<Rightarrow> string \<Rightarrow> string \<Rightarrow> Operation option" where
  "lastCall [] path verb = None"
| "lastCall ((op, p, v) # calls) path verb =
     (case lastCall calls path verb of
        Some op' \<Rightarrow> Some op'
      | None \<Rightarrow> if p = path \<and> v = verb then Some op else None)"

text \<open>The patterns for which the switch of \<open>addPathsToDocumentV3\<close> names no method.\<close>

fun unsupportedPattern :: "HttpRule_Pattern \<Rightarrow> bool" where
  "unsupportedPattern (HttpRule_Custom kind p) = True"
| "unsupportedPattern Pattern_nil = True"
| "unsupportedPattern _ = False"

definition unsupportedMethod :: "Method \<Rightarrow> bool" where
  "unsupportedMethod method =
     (case me_Http method of None \<Rightarrow> False | Some rule \<Rightarrow> unsupportedPattern (hr_Pattern rule))"

definition annotated :: "Method \<Rightarrow> bool" where
  "annotated method = (me_Http method \<noteq> None)"

text \<open>
  The covered parameters of \<open>buildOperationV3\<close> when the query parameters are made: the
  body field, the simple path parameters and the name of the named path parameter.
\<close>

definition coveredParametersOf ::
  "OpenAPIv3Generator \<Rightarrow> string \<Rightarrow> string \<Rightarrow> Message \<Rightarrow> string list" where
  "coveredParametersOf g path bodyField inputMessage =
     (let coveredParameters = (if bodyField \<noteq> [] then [bodyField] else []);
          (coveredParameters, path, pathParameters) =
             simplePathParameters g inputMessage (pathPatternFindAll path)
               (coveredParameters, path, []);
          (coveredParameters, path, namedPathParameters) =
             namedPathParameters g inputMessage (coveredParameters, path)
      in coveredParameters)"

text \<open>The query parameter that the loop of \<open>buildOperationV3\<close> makes for a field.\<close>

definition queryParameterOf :: "OpenAPIv3Generator \<Rightarrow> Field \<Rightarrow> Parameter" where
  "queryParameterOf g field =
     \<lparr> p_Name = formatFieldName g field, p_In = ''query'',
       p_Description = filterCommentString (f_Leading field) True, p_Required = False,
       p_Schema =
         addValidationRules
           (coalesceToStringSchema (fst (schemaOrReferenceForField g field))
              [''number'', ''integer''])
           field \<rparr>"

text \<open>A request message with a string field, a bytes field and an int64 field with rules.\<close>

definition exampleRequest :: Message where
  "exampleRequest =
     Message (topLevel ''pkg'' ''UpdateRequest'')
       [scalarField ''message_id'' StringKind None,
        scalarField ''payload'' BytesKind None,
        scalarField ''mynum'' Int64Kind
          (Some (FieldRules_Int64 \<lparr> i64_Gte = Some 1, i64_Lte = Some 30 \<rparr>))]
       [] [] None"

text \<open>
  Two files, each with a service of the name \<open>Library\<close> and one GET method; the leading
  comments of the two services differ.
\<close>

definition libraryFile :: "string \<Rightarrow> string \<Rightarrow> File" where
  "libraryFile comment path =
     \<lparr> fl_Generate = True,
       fl_Services =
         [\<lparr> sv_GoName = ''Library'', sv_Leading = comment,
            sv_Methods =
              [exampleMethod ''Get'' (Some \<lparr> hr_Pattern = HttpRule_Get path, hr_Body = [] \<rparr>)] \<rparr>],
       fl_Messages = [] \<rparr>"

section \<open>The schema loop, message by message\<close>

text \<open>
  The type names for which \<open>schemaOrReferenceForType\<close> has a fixed schema and makes no
  reference.
\<close>

definition wellKnownTypeNames :: "string list" where
  "wellKnownTypeNames =
     [''.google.protobuf.Timestamp'', ''.google.type.Date'', ''.google.type.DateTime'',
      ''.google.protobuf.Struct'', ''.google.protobuf.Empty'', ''.google.protobuf.BoolValue'',
      ''.google.protobuf.BytesValue'', ''.google.protobuf.DoubleValue'',
      ''.google.protobuf.FloatValue'', ''.google.protobuf.Int64Value'',
      ''.google.protobuf.UInt64Value'', ''.google.protobuf.Int32Value'',
      ''.google.protobuf.UInt32Value'', ''.google.protobuf.StringValue'']"

text \<open>
  The type names that the schema of a field refers to: the message type of the field, or
  of the values of a map field, when it is not a well-known one.
\<close>

fun fieldTypeNames :: "Field \<Rightarrow> string list" where
  "fieldTypeNames (Field name json kind isList mapValue msg enums fb rules leading) =
     (case mapValue of
        Some v \<Rightarrow> fieldTypeNames v
      | None \<Rightarrow>
          if kind = MessageKind \<and> \<not> contains wellKnownTypeNames (fullMessageTypeName msg)
          then [fullMessageTypeName msg] else [])"

definition messageTypeNames :: "Message \<Rightarrow> string list" where
  "messageTypeNames message = concat (map fieldTypeNames (m_Fields message))"

text \<open>
  The messages in the order in which \<open>addSchemasToDocumentV3\<close> comes to them: the nested
  messages of a message before the message itself.
\<close>

fun allMessages :: "Message list \<Rightarrow> Message list" where
  "allMessages [] = []"
| "allMessages (Message desc fs nested leading resource # messages) =
     allMessages nested @ Message desc fs nested leading resource # allMessages messages"

definition declaredMessages :: "File list \<Rightarrow> Message list" where
  "declaredMessages files = concat (map (\<lambda>file. allMessages (fl_Messages file)) files)"

definition typeNameOf :: "Message \<Rightarrow> string" where
  "typeNameOf message = fullMessageTypeName (m_Desc message)"

text \<open>
  What \<open>addSchemasToDocumentV3\<close> does with one message, once it has dealt with the nested
  messages.
\<close>

definition addSchema ::
  "OpenAPIv3Generator \<times> Document \<Rightarrow> Message \<Rightarrow> OpenAPIv3Generator \<times> Document" where
  "addSchema st message =
     (let (g, d) = st;
          pattern = (case m_Resource message of Some (p # ps) \<Rightarrow> p | _ \<Rightarrow> []);
          typeName = fullMessageTypeName (m_Desc message)
      in if \<not> contains (requiredSchemas g) typeName \<or> contains (generatedSchemas g) typeName
         then (g, d)
         else
           (let g = g\<lparr>generatedSchemas := generatedSchemas g @ [typeName]\<rparr>;
                messageDescription = filterCommentString (m_Leading message) True;
                (g, properties, requiredProperties) =
                   definitionProperties pattern (m_Fields message) (g, [], []);
                d = d\<lparr>d_Schemas := d_Schemas d @
                       [(formatMessageName g message,
                         SchemaOrReference_Schema
                           (emptySchema\<lparr>s_Description := messageDescription,
                                         s_Required := requiredProperties\<rparr>)
                           [] None (Some properties))]\<rparr>
            in (g, d)))"

text \<open>
  \<open>requiresMore g g'\<close>: the generator \<open>g'\<close> is \<open>g\<close> after some type names have been marked
  as required, each as \<open>schemaReferenceForTypeName\<close> does it.
\<close>

definition requiresMore :: "OpenAPIv3Generator \<Rightarrow> OpenAPIv3Generator \<Rightarrow> bool" where
  "requiresMore g g' \<longleftrightarrow>
     (\<exists>ts. g' = g\<lparr>requiredSchemas := foldl appendUnique (requiredSchemas g) ts\<rparr>)"

text \<open>
  A library: the method \<open>GetShelf\<close> returns a shelf, a shelf has books, and a book refers
  back to its shelf.  The file declares the book before the shelf.
\<close>

definition messageField :: "string \<Rightarrow> bool \<Rightarrow> MessageDescriptor \<Rightarrow> Field" where
  "messageField name isList desc = Field name name MessageKind isList None desc [] [] None []"

definition shelfMessage :: "string \<Rightarrow> Message" where
  "shelfMessage package =
     Message (topLevel package ''Shelf'')
       [scalarField ''name'' StringKind None,
        messageField ''books'' True (topLevel package ''Book'')] [] [] None"

definition bookMessage :: "string \<Rightarrow> Message" where
  "bookMessage package =
     Message (topLevel package ''Book'')
       [scalarField ''title'' StringKind None,
        messageField ''shelf'' False (topLevel package ''Shelf'')] [] [] None"

definition getMethod :: "string \<Rightarrow> string \<Rightarrow> Message \<Rightarrow> Method" where
  "getMethod name path outputMessage =
     \<lparr> me_GoName = name, me_Leading = [], me_Input = emptyMessage ''Request'',
       me_Output = outputMessage,
       me_Http = Some \<lparr> hr_Pattern = HttpRule_Get path, hr_Body = [] \<rparr> \<rparr>"

definition shelfFile :: File where
  "shelfFile =
     \<lparr> fl_Generate = True,
       fl_Services =
         [\<lparr> sv_GoName = ''Library'', sv_Leading = [],
            sv_Methods = [getMethod ''GetShelf'' ''/v1/shelf'' (shelfMessage ''pkg'')] \<rparr>],
       fl_Messages = [bookMessage ''pkg'', shelfMessage ''pkg'', emptyMessage ''Request''] \<rparr>"

section \<open>Properties of the generator\<close>

subsection \<open>Strings and numbers\<close>

lemma Split_not_Nil: "Split s sep \<noteq> []"
  by (induction s) (auto split: list.splits)

lemma Split_no_sep: "sep \<notin> set n \<Longrightarrow> Split n sep = [n]"
  by (induction n) auto

lemma Split_append: "Split (xs @ sep # ys) sep = Split xs sep @ Split ys sep"
proof (induction xs)
  case Nil
  show ?case by simp
next
  case (Cons c xs)
  obtain p ps where "Split xs sep = p # ps"
    using Split_not_Nil[of xs sep] by (cases "Split xs sep") auto
  with Cons show ?case by simp
qed

lemma last_Split_append: "sep \<notin> set n \<Longrightarrow> last (Split (xs @ sep # n) sep) = n"
  by (simp add: Split_append Split_no_sep)

lemma case_letters: "c \<in> asciiLetters \<Longrightarrow> ToLower1 c \<noteq> ToUpper1 c"
  by (auto simp: asciiLetters_def ToLower1_def ToUpper1_def lowerOf_def upperOf_def)

lemma case_nonletters: "c \<notin> asciiLetters \<Longrightarrow> ToLower1 c = ToUpper1 c"
  apply (auto simp: asciiLetters_def ToLower1_def ToUpper1_def lowerOf_def upperOf_def)
  done

lemma float64_int32: "float64 (sint (w :: 32 word)) = real_of_int (sint w)"
proof -
  have "\<bar>sint w\<bar> < 2 ^ 53"
    using sint_range_size[of w] sint_lt[of w] sint_ge[of w] by (simp add: word_size abs_less_iff)
  then show ?thesis by (simp add: float64_def Let_def)
qed

subsection \<open>Reference names and schema names\<close>

text \<open>
  C9 (counterexample).  In the default naming mode the top-level message \<open>_\<close>, whose name
  has length one, gets a reference whose target is the key of its component schema: the
  two do not differ.
\<close>

theorem single_character_name_counterexample:
  "fst (schemaReferenceForTypeName exampleGenerator
          (fullMessageTypeName (topLevel ''pkg'' ''_'')))
     = ''#/components/schemas/'' @
         formatMessageName exampleGenerator (Message (topLevel ''pkg'' ''_'') [] [] [] None)"
  by (simp add: schemaReferenceForTypeName_def fullMessageTypeName_def getMessageName_def
      topLevel_def formatMessageRef_def formatMessageName_def exampleGenerator_def
      exampleConfiguration_def NewOpenAPIv3Generator_def ToLower1_def ToUpper1_def
      lowerOf_def upperOf_def Let_def)

text \<open>
  C9 (as amended).  In the default naming mode \<open>formatMessageRef\<close> uppercases the first
  byte of a name of length at least two and lowercases a name of length one, while
  \<open>formatMessageName\<close> uppercases the first byte of every non-empty name.  For a top-level
  message whose name is the single character \<open>c\<close> (not a dot), the target of the reference
  made by \<open>schemaReferenceForTypeName\<close> differs from the key made by \<open>formatMessageName\<close>
  exactly when \<open>c\<close> is an ASCII letter.
\<close>

theorem single_letter_name_reference:
  assumes "c_Naming (conf g) \<noteq> ''proto''"
  shows "(2 \<le> length name \<longrightarrow> formatMessageRef g name = ToUpper1 (hd name) @ drop 1 name)
       \<and> formatMessageRef g [c] = ToLower1 c
       \<and> (getMessageName (m_Desc message) \<noteq> [] \<longrightarrow>
            formatMessageName g message =
              ToUpper1 (hd (getMessageName (m_Desc message))) @
              drop 1 (getMessageName (m_Desc message)))
       \<and> (c \<noteq> CHR ''.'' \<longrightarrow>
            (fst (schemaReferenceForTypeName g (fullMessageTypeName (topLevel package [c])))
               \<noteq> ''#/components/schemas/'' @
                  formatMessageName g (Message (topLevel package [c]) fs nested leading resource))
            = (c \<in> asciiLetters))"
proof -
  have ref: "last (Split (fullMessageTypeName (topLevel package [c])) (CHR ''.'')) = [c]"
    if "c \<noteq> CHR ''.''"
    using that last_Split_append[of "CHR ''.''" "[c]" "''.'' @ package"]
    by (simp add: fullMessageTypeName_def getMessageName_def topLevel_def)
  have key: "formatMessageName g (Message (topLevel package [c]) fs nested leading resource)
               = ToUpper1 c"
    using assms by (simp add: formatMessageName_def getMessageName_def topLevel_def)
  have tgt: "fst (schemaReferenceForTypeName g (fullMessageTypeName (topLevel package [c])))
               = ''#/components/schemas/'' @ ToLower1 c" if "c \<noteq> CHR ''.''"
    using assms ref[OF that]
    by (simp add: schemaReferenceForTypeName_def formatMessageRef_def Let_def)
  have "(ToLower1 c \<noteq> ToUpper1 c) = (c \<in> asciiLetters)"
    using case_letters case_nonletters by blast
  with key tgt have last: "c \<noteq> CHR ''.'' \<longrightarrow>
      (fst (schemaReferenceForTypeName g (fullMessageTypeName (topLevel package [c])))
         \<noteq> ''#/components/schemas/'' @
            formatMessageName g (Message (topLevel package [c]) fs nested leading resource))
      = (c \<in> asciiLetters)"
    by simp
  have first: "2 \<le> length name \<longrightarrow> formatMessageRef g name = ToUpper1 (hd name) @ drop 1 name"
    using assms by (simp add: formatMessageRef_def)
  have second: "formatMessageRef g [c] = ToLower1 c"
    using assms by (simp add: formatMessageRef_def)
  have third: "getMessageName (m_Desc message) \<noteq> [] \<longrightarrow>
            formatMessageName g message =
              ToUpper1 (hd (getMessageName (m_Desc message))) @
              drop 1 (getMessageName (m_Desc message))"
    using assms by (simp add: formatMessageName_def Let_def)
  from first second third last show ?thesis by blast
qed

text \<open>The message \<open>a\<close> of package \<open>pkg\<close>: the reference ends in \<open>a\<close>, the key is \<open>A\<close>.\<close>

theorem single_letter_name_reference_witness:
  "c_Naming (conf exampleGenerator) \<noteq> ''proto''
   \<and> formatMessageRef exampleGenerator ''book'' = ''Book''
   \<and> formatMessageRef exampleGenerator ''a'' = ''a''
   \<and> formatMessageName exampleGenerator (Message (topLevel ''pkg'' ''a'') [] [] [] None) = ''A''
   \<and> fst (schemaReferenceForTypeName exampleGenerator (fullMessageTypeName (topLevel ''pkg'' ''a'')))
       \<noteq> ''#/components/schemas/'' @
          formatMessageName exampleGenerator (Message (topLevel ''pkg'' ''a'') [] [] [] None)"
proof -
  have n: "c_Naming (conf exampleGenerator) \<noteq> ''proto''"
    by (simp add: exampleGenerator_def exampleConfiguration_def NewOpenAPIv3Generator_def)
  have l: "CHR ''a'' \<in> asciiLetters" by (simp add: asciiLetters_def)
  show ?thesis
    using n l
      single_letter_name_reference[OF n, of "''book''" "CHR ''a''"
        "Message (topLevel ''pkg'' ''a'') [] [] [] None" "''pkg''" "[]" "[]" "[]" None]
    by (auto simp add: ToUpper1_def ToLower1_def upperOf_def lowerOf_def getMessageName_def
        topLevel_def)
qed

subsection \<open>Enum fields\<close>

lemma enumKindSchemaList_filter:
  "enumKindSchemaList vs = filter (\<lambda>v. \<not> HasSuffix v ''_UNSPECIFIED'') vs"
  by (induction vs) auto

lemma enumToStringSliceFrom_filter:
  "enumToStringSliceFrom i vs [] = filter (\<lambda>v. \<not> HasSuffix v ''_UNSPECIFIED'') vs"
  by (induction vs arbitrary: i) auto

text \<open>
  C4 (counterexample).  The enum with the values \<open>UNSPECIFIED\<close>, \<open>APPROVED\<close>, \<open>PENDING\<close>
  keeps all three names: \<open>UNSPECIFIED\<close> does not end in \<open>_UNSPECIFIED\<close>.  The method of
  the generator, which builds the schema of an enum field, sets no format.
\<close>

theorem enum_unspecified_counterexample:
  "enumKindSchema_func (enumField [''UNSPECIFIED'', ''APPROVED'', ''PENDING''])
     = newSchema (emptySchema\<lparr>s_Format := ''enum'', s_Type := ''string'',
                               s_Enum := [''UNSPECIFIED'', ''APPROVED'', ''PENDING'']\<rparr>)
   \<and> enumKindSchema_func (enumField [''UNSPECIFIED'', ''APPROVED'', ''PENDING''])
     \<noteq> newSchema (emptySchema\<lparr>s_Format := ''enum'', s_Type := ''string'',
                               s_Enum := [''APPROVED'', ''PENDING'']\<rparr>)
   \<and> enumKindSchema (enumField [''UNSPECIFIED'', ''APPROVED'', ''PENDING''])
     = newSchema (emptySchema\<lparr>s_Type := ''string'',
                               s_Enum := [''UNSPECIFIED'', ''APPROVED'', ''PENDING'']\<rparr>)"
  by (simp add: enumKindSchema_func_def enumKindSchema_def enumsToV3Any_def
      enumToStringSlice_def enumField_def HasSuffix_def newSchema_def emptySchema_def)

text \<open>
  C4 (as amended).  The package-level function \<open>enumKindSchema\<close> gives the schema with
  type \<open>string\<close>, format \<open>enum\<close> and the list of the value names, in declaration order,
  that do not end in \<open>_UNSPECIFIED\<close>; the method \<open>enumKindSchema\<close> of the generator, and
  with it \<open>schemaOrReferenceForField\<close> on an enum field, gives the same type and list and
  no format.
\<close>

theorem enum_schema:
  "enumKindSchema_func field
     = newSchema (emptySchema\<lparr>s_Format := ''enum'', s_Type := ''string'',
         s_Enum := filter (\<lambda>v. \<not> HasSuffix v ''_UNSPECIFIED'') (f_EnumValues field)\<rparr>)
   \<and> enumKindSchema field
     = newSchema (emptySchema\<lparr>s_Type := ''string'',
         s_Enum := filter (\<lambda>v. \<not> HasSuffix v ''_UNSPECIFIED'') (f_EnumValues field)\<rparr>)
   \<and> fst (schemaOrReferenceForField g (enumField names))
     = Some (newSchema (emptySchema\<lparr>s_Type := ''string'',
         s_Enum := filter (\<lambda>v. \<not> HasSuffix v ''_UNSPECIFIED'') names\<rparr>))"
  by (simp add: enumKindSchema_func_def enumKindSchema_def enumsToV3Any_def
      enumToStringSlice_def enumKindSchemaList_filter enumToStringSliceFrom_filter
      enumField_def kindSchemaFor_def)

text \<open>The values \<open>STATUS_UNSPECIFIED\<close>, \<open>APPROVED\<close>, \<open>PENDING\<close> give \<open>APPROVED\<close>, \<open>PENDING\<close>.\<close>

theorem enum_schema_witness:
  "enumKindSchema_func (enumField [''STATUS_UNSPECIFIED'', ''APPROVED'', ''PENDING''])
     = newSchema (emptySchema\<lparr>s_Format := ''enum'', s_Type := ''string'',
                               s_Enum := [''APPROVED'', ''PENDING'']\<rparr>)
   \<and> enumKindSchema (enumField [''STATUS_UNSPECIFIED'', ''APPROVED'', ''PENDING''])
     = newSchema (emptySchema\<lparr>s_Type := ''string'', s_Enum := [''APPROVED'', ''PENDING'']\<rparr>)"
  using enum_schema[of "enumField [''STATUS_UNSPECIFIED'', ''APPROVED'', ''PENDING'']"]
  by (simp add: enumField_def HasSuffix_def)

subsection \<open>Validation rules of integer fields\<close>

lemma float64_exact: "\<bar>n\<bar> \<le> 2 ^ 53 \<Longrightarrow> float64 n = real_of_int n"
proof (cases "\<bar>n\<bar> < 2 ^ 53")
  case True
  then show ?thesis by (simp add: float64_def Let_def)
next
  case False
  assume "\<bar>n\<bar> \<le> 2 ^ 53"
  then have a: "\<bar>n\<bar> = 2 ^ 53" using False by simp
  have b: "bitlen (2 ^ 53 :: int) = 54" using bitlen_twopow_add_eq[of 0 53] by simp
  have "sgn n * 2 ^ 53 = n" using a by (cases "n < 0") (simp_all add: sgn_if)
  then show ?thesis using a b by (simp add: float64_def Let_def)
qed

lemma float64_rounds: "float64 (2 ^ 53 + 1) = 2 ^ 53"
proof -
  have b: "bitlen (2 ^ 53 + 1 :: int) = 54" using bitlen_twopow_add_eq[of 1 53] by simp
  show ?thesis using b by (simp add: float64_def Let_def)
qed

text \<open>
  C5 (counterexample).  The rule \<open>gte: 9007199254740993\<close>, which is \<open>2 ^ 53 + 1\<close>, on an
  int64 field: the minimum of the schema is \<open>9007199254740992\<close>, not the value of \<open>gte\<close>,
  because the schema holds the bound as a float64.
\<close>

theorem int64_bound_counterexample:
  "addValidationRules (newSchema (emptySchema\<lparr>s_Type := ''integer'', s_Format := ''int64''\<rparr>))
       (scalarField ''mynum'' Int64Kind
          (Some (FieldRules_Int64 \<lparr> i64_Gte = Some 9007199254740993, i64_Lte = None \<rparr>)))
     = newSchema (emptySchema\<lparr>s_Type := ''integer'', s_Format := ''int64'',
                               s_Minimum := 9007199254740992\<rparr>)"
proof -
  have s: "sint (9007199254740993 :: 64 word) = 2 ^ 53 + 1" by simp
  show ?thesis
    using float64_rounds
    by (simp add: addValidationRules_def scalarField_def IsMap_def newSchema_def emptySchema_def
        int64RulesSchema_def GetGte64_def GetLte64_def Let_def s)
qed

text \<open>
  C5 (as amended).  For a field of kind int32 or int64 that carries rules of its kind, both
  \<open>addValidationRules\<close> and \<open>fieldRule\<close> set the minimum of the schema to the value of
  \<open>gte\<close>, converted to float64, if and only if that value is greater than zero, and the
  maximum to the value of \<open>lte\<close>, converted to float64, if and only if that value is
  greater than zero; otherwise the minimum and the maximum stay as they are.  The
  conversion is exact for every int32, and for every int64 whose absolute value is at most
  \<open>2 ^ 53\<close>; a larger int64 is rounded, as the conversion of Go does.
\<close>

theorem integer_bounds:
  "(f_Kind field = Int32Kind \<and> \<not> IsMap field \<and> f_Rules field = Some (FieldRules_Int32 r32) \<longrightarrow>
      addValidationRules (SchemaOrReference_Schema schema items additional properties) field
        = SchemaOrReference_Schema
            (schema\<lparr>s_Minimum := (if 0 < sint (GetGte32 r32) then real_of_int (sint (GetGte32 r32))
                                   else s_Minimum schema),
                    s_Maximum := (if 0 < sint (GetLte32 r32) then real_of_int (sint (GetLte32 r32))
                                   else s_Maximum schema)\<rparr>)
            items additional properties
      \<and> fieldRule (f_Rules field) field schema
        = Inr (schema\<lparr>s_Minimum := (if 0 < sint (GetGte32 r32)
                                       then real_of_int (sint (GetGte32 r32))
                                       else s_Minimum schema),
                        s_Maximum := (if 0 < sint (GetLte32 r32)
                                       then real_of_int (sint (GetLte32 r32))
                                       else s_Maximum schema)\<rparr>))
   \<and> (f_Kind field = Int64Kind \<and> \<not> IsMap field \<and> f_Rules field = Some (FieldRules_Int64 r64) \<longrightarrow>
      addValidationRules (SchemaOrReference_Schema schema items additional properties) field
        = SchemaOrReference_Schema
            (schema\<lparr>s_Minimum := (if 0 < sint (GetGte64 r64) then float64 (sint (GetGte64 r64))
                                   else s_Minimum schema),
                    s_Maximum := (if 0 < sint (GetLte64 r64) then float64 (sint (GetLte64 r64))
                                   else s_Maximum schema)\<rparr>)
            items additional properties
      \<and> fieldRule (f_Rules field) field schema
        = Inr (schema\<lparr>s_Minimum := (if 0 < sint (GetGte64 r64)
                                       then float64 (sint (GetGte64 r64))
                                       else s_Minimum schema),
                        s_Maximum := (if 0 < sint (GetLte64 r64)
                                       then float64 (sint (GetLte64 r64))
                                       else s_Maximum schema)\<rparr>))
   \<and> (\<bar>sint (GetGte64 r64)\<bar> \<le> 2 ^ 53 \<longrightarrow>
        float64 (sint (GetGte64 r64)) = real_of_int (sint (GetGte64 r64)))
   \<and> (\<bar>sint (GetLte64 r64)\<bar> \<le> 2 ^ 53 \<longrightarrow>
        float64 (sint (GetLte64 r64)) = real_of_int (sint (GetLte64 r64)))"
  by (simp add: addValidationRules_def fieldRule_def int32RulesSchema_def int64RulesSchema_def
      Let_def float64_int32 float64_exact)

text \<open>
  The rules \<open>gte: 1, lte: 30\<close> on an int64 field give minimum 1 and maximum 30; the rules
  \<open>gte: 5, lte: -5\<close> on an int32 field give minimum 5 and no maximum.
\<close>

theorem integer_bounds_witness:
  "addValidationRules (newSchema (emptySchema\<lparr>s_Type := ''integer'', s_Format := ''int64''\<rparr>))
       (scalarField ''mynum'' Int64Kind
          (Some (FieldRules_Int64 \<lparr> i64_Gte = Some 1, i64_Lte = Some 30 \<rparr>)))
     = newSchema (emptySchema\<lparr>s_Type := ''integer'', s_Format := ''int64'',
                               s_Minimum := 1, s_Maximum := 30\<rparr>)
   \<and> addValidationRules (newSchema (emptySchema\<lparr>s_Type := ''integer'', s_Format := ''int32''\<rparr>))
       (scalarField ''n'' Int32Kind
          (Some (FieldRules_Int32 \<lparr> i32_Gte = Some 5, i32_Lte = Some (- 5) \<rparr>)))
     = newSchema (emptySchema\<lparr>s_Type := ''integer'', s_Format := ''int32'',
                               s_Minimum := 5\<rparr>)"
  using
    integer_bounds[of "scalarField ''mynum'' Int64Kind
          (Some (FieldRules_Int64 \<lparr> i64_Gte = Some 1, i64_Lte = Some 30 \<rparr>))" undefined
       "emptySchema\<lparr>s_Type := ''integer'', s_Format := ''int64''\<rparr>" "[]" None None
       "\<lparr> i64_Gte = Some 1, i64_Lte = Some 30 \<rparr>"]
    integer_bounds[of "scalarField ''n'' Int32Kind
          (Some (FieldRules_Int32 \<lparr> i32_Gte = Some 5, i32_Lte = Some (- 5) \<rparr>))"
       "\<lparr> i32_Gte = Some 5, i32_Lte = Some (- 5) \<rparr>"
       "emptySchema\<lparr>s_Type := ''integer'', s_Format := ''int32''\<rparr>" "[]" None None undefined]
  by (simp add: scalarField_def IsMap_def newSchema_def emptySchema_def GetGte64_def GetLte64_def
      GetGte32_def GetLte32_def float64_def)

subsection \<open>Operations of a path and a verb\<close>

lemma operationOf_setOperation:
  "verb \<in> verbs \<Longrightarrow>
   operationOf verb (setOperation methodName op item) =
     (if verb = methodName then Some op else operationOf verb item)"
  by (auto simp: verbs_def operationOf_def setOperation_def)

lemma operationOf_emptyPathItem: "operationOf verb emptyPathItem = None"
  by (simp add: operationOf_def emptyPathItem_def)

lemma map_of_addOperationToPaths:
  "map_of (addOperationToPaths ps op path methodName) p =
     (if p = path
      then Some (setOperation methodName op
                   (case map_of ps path of None \<Rightarrow> emptyPathItem | Some item \<Rightarrow> item))
      else map_of ps p)"
  by (induction ps) auto

lemma fst_addOperationToPaths:
  "set (map fst (addOperationToPaths ps op path methodName)) = insert path (set (map fst ps))"
  by (induction ps) auto

lemma distinct_addOperationToPaths:
  "distinct (map fst ps) \<Longrightarrow> distinct (map fst (addOperationToPaths ps op path methodName))"
proof (induction ps)
  case Nil
  then show ?case by simp
next
  case (Cons a ps)
  then show ?case
    using fst_addOperationToPaths[of ps op path methodName] by auto
qed

lemma lookupOperation_addOperationV3:
  "verb \<in> verbs \<Longrightarrow>
   lookupOperation (addOperationV3 d op p methodName) path verb =
     (if p = path \<and> methodName = verb then Some op else lookupOperation d path verb)"
  by (auto simp: lookupOperation_def addOperationV3_def map_of_addOperationToPaths
      operationOf_setOperation operationOf_emptyPathItem split: option.splits)

lemma lookupOperation_addOperations:
  "verb \<in> verbs \<Longrightarrow>
   lookupOperation (addOperations d calls) path verb =
     (case lastCall calls path verb of Some op \<Rightarrow> Some op | None \<Rightarrow> lookupOperation d path verb)"
proof (induction calls arbitrary: d)
  case Nil
  then show ?case by simp
next
  case (Cons c calls)
  obtain op p v where c: "c = (op, p, v)" by (cases c) auto
  show ?case
    using Cons.prems Cons.IH[OF Cons.prems]
    by (simp add: c lookupOperation_addOperationV3 split: option.splits)
qed

lemma distinct_addOperations:
  "distinct (map fst (d_Paths d)) \<Longrightarrow> distinct (map fst (d_Paths (addOperations d calls)))"
proof (induction calls arbitrary: d)
  case Nil
  then show ?case by simp
next
  case (Cons c calls)
  obtain op p v where c: "c = (op, p, v)" by (cases c) auto
  show ?case
    using Cons.IH[of "addOperationV3 d op p v"] Cons.prems
    by (simp add: c addOperationV3_def distinct_addOperationToPaths)
qed

text \<open>
  C3.  A path item has one field for each of the verbs GET, POST, PUT, DELETE and
  PATCH, and \<open>addOperationV3\<close> keeps the names of the path items pairwise different, so a
  path and a verb hold at most one operation.  After any sequence of calls, the
  operation of a path and a verb is the one of the last call for that path and verb (or
  the one the document had, when there is no such call): when two calls bind the same
  path and verb, the later operation is the one retained.  \<open>addOperationV3\<close> has no
  error result.
\<close>

theorem last_operation_wins:
  "(distinct (map fst (d_Paths d)) \<longrightarrow> distinct (map fst (d_Paths (addOperations d calls))))
   \<and> (verb \<in> verbs \<longrightarrow>
        lookupOperation (addOperations d calls) path verb =
          (case lastCall calls path verb of
             Some op \<Rightarrow> Some op
           | None \<Rightarrow> lookupOperation d path verb))
   \<and> (verb \<in> verbs \<longrightarrow>
        lookupOperation
          (addOperations d (calls @ [(op1, path, verb)] @ between @ [(op2, path, verb)])) path verb
          = Some op2)"
proof -
  have "lastCall (cs @ [(op2, path, verb)]) path verb = Some op2" for cs
    by (induction cs) auto
  from this[of "calls @ [(op1, path, verb)] @ between"]
  have "lastCall (calls @ [(op1, path, verb)] @ between @ [(op2, path, verb)]) path verb = Some op2"
    by simp
  then show ?thesis
    using distinct_addOperations[of d calls] lookupOperation_addOperations[of verb d _ path]
    by (simp split: option.splits)
qed

text \<open>Two GET operations on \<open>/v1/books\<close>: one path item, holding the second.\<close>

theorem last_operation_wins_witness:
  "distinct (map fst (d_Paths (newDocument exampleGenerator)))
   \<and> ''GET'' \<in> verbs
   \<and> map fst (d_Paths (addOperations (newDocument exampleGenerator)
        [(exampleOperation ''first'', ''/v1/books'', ''GET''),
         (exampleOperation ''other'', ''/v1/shelves'', ''POST''),
         (exampleOperation ''second'', ''/v1/books'', ''GET'')])) = [''/v1/books'', ''/v1/shelves'']
   \<and> lookupOperation (addOperations (newDocument exampleGenerator)
        [(exampleOperation ''first'', ''/v1/books'', ''GET''),
         (exampleOperation ''other'', ''/v1/shelves'', ''POST''),
         (exampleOperation ''second'', ''/v1/books'', ''GET'')]) ''/v1/books'' ''GET''
       = Some (exampleOperation ''second'')"
proof -
  have v: "''GET'' \<in> verbs" by (simp add: verbs_def)
  have d: "distinct (map fst (d_Paths (newDocument exampleGenerator)))"
    by (simp add: newDocument_def)
  have "lookupOperation (addOperations (newDocument exampleGenerator)
        ([] @ [(exampleOperation ''first'', ''/v1/books'', ''GET'')]
            @ [(exampleOperation ''other'', ''/v1/shelves'', ''POST'')]
            @ [(exampleOperation ''second'', ''/v1/books'', ''GET'')])) ''/v1/books'' ''GET''
       = Some (exampleOperation ''second'')"
    using last_operation_wins[of "newDocument exampleGenerator" "[]" "''GET''" "''/v1/books''"
        "exampleOperation ''first''" "[(exampleOperation ''other'', ''/v1/shelves'', ''POST'')]"
        "exampleOperation ''second''"] v
    by blast
  moreover have "map fst (d_Paths (addOperations (newDocument exampleGenerator)
        [(exampleOperation ''first'', ''/v1/books'', ''GET''),
         (exampleOperation ''other'', ''/v1/shelves'', ''POST''),
         (exampleOperation ''second'', ''/v1/books'', ''GET'')])) = [''/v1/books'', ''/v1/shelves'']"
    by (simp add: addOperationV3_def newDocument_def)
  ultimately show ?thesis using v d by simp
qed

subsection \<open>Methods with a custom pattern or with no pattern\<close>

lemma patternPathAndMethod_unsupported:
  "unsupportedPattern pattern \<Longrightarrow>
   snd (patternPathAndMethod pattern) = []
   \<and> fst (patternPathAndMethod pattern) \<in> {''custom-unsupported'', ''unknown-unsupported''}"
  by (cases pattern) auto

lemma patternPathAndMethod_supported:
  "\<not> unsupportedPattern pattern \<Longrightarrow> snd (patternPathAndMethod pattern) \<in> verbs"
  by (cases pattern) (auto simp: verbs_def)

lemma addMethodsV3_unsupported:
  assumes "unsupportedMethod method"
  shows "addMethodsV3 service (method # methods) (g, d, n) =
           addMethodsV3 service methods (g, d, Suc n)"
proof -
  obtain rule where r: "me_Http method = Some rule" "unsupportedPattern (hr_Pattern rule)"
    using assms by (auto simp: unsupportedMethod_def split: option.splits)
  obtain p where "patternPathAndMethod (hr_Pattern rule) = (p, [])"
    using patternPathAndMethod_unsupported[OF r(2)]
    by (cases "patternPathAndMethod (hr_Pattern rule)") auto
  then show ?thesis using r by (simp add: Let_def)
qed

lemma addMethodsV3_not_annotated:
  assumes "me_Http method = None"
  shows "addMethodsV3 service (method # methods) (g, d, n) =
           addMethodsV3 service methods (g, d, n)"
  using assms by (simp add: Let_def)

lemma addMethodsV3_tags:
  "d_Tags (fst (snd (addMethodsV3 service methods (g, d, n)))) = d_Tags d"
proof (induction methods arbitrary: g d n)
  case Nil
  then show ?case by simp
next
  case (Cons m methods)
  show ?case
    by (simp add: Let_def Cons.IH addOperationV3_def split: option.splits prod.splits)
qed

lemma addMethodsV3_count:
  "snd (snd (addMethodsV3 service methods (g, d, n))) = n + length (filter annotated methods)"
proof (induction methods arbitrary: g d n)
  case Nil
  then show ?case by simp
next
  case (Cons m methods)
  show ?case
    by (simp add: Let_def Cons.IH annotated_def split: option.splits prod.splits)
qed

lemma addMethodsV3_all_unsupported:
  "\<forall>m \<in> set methods. me_Http m = None \<or> unsupportedMethod m \<Longrightarrow>
   addMethodsV3 service methods (g, d, n) = (g, d, n + length (filter annotated methods))"
proof (induction methods arbitrary: n)
  case Nil
  then show ?case by simp
next
  case (Cons m methods)
  show ?case
  proof (cases "me_Http m")
    case None
    then show ?thesis
      using Cons by (simp add: addMethodsV3_not_annotated annotated_def del: addMethodsV3.simps)
  next
    case (Some rule)
    then have "unsupportedMethod m" using Cons.prems by auto
    then show ?thesis
      using Cons Some
      by (simp add: addMethodsV3_unsupported annotated_def del: addMethodsV3.simps)
  qed
qed

text \<open>
  C7.  A method whose HTTP rule has a custom pattern or no pattern gets one of the two
  sentinel paths and an empty method name; the step of the loop for that method changes
  neither the generator nor the document, it only counts the annotation: no path item and
  no operation is made for it, and nothing is reported (the functions have no error
  result).
\<close>

theorem unsupported_pattern_never_registered:
  assumes "unsupportedMethod method"
  shows "(\<exists>rule. me_Http method = Some rule
            \<and> patternPathAndMethod (hr_Pattern rule)
                \<in> {(''custom-unsupported'', []), (''unknown-unsupported'', [])})
       \<and> addMethodsV3 service (method # methods) (g, d, n) =
           addMethodsV3 service methods (g, d, Suc n)
       \<and> (let (g', d', n') = addMethodsV3 service (before @ [method]) (g, d, n);
              (g0, d0, n0) = addMethodsV3 service before (g, d, n)
          in g' = g0 \<and> d' = d0)"
proof -
  obtain rule where r: "me_Http method = Some rule" "unsupportedPattern (hr_Pattern rule)"
    using assms by (auto simp: unsupportedMethod_def split: option.splits)
  have a: "patternPathAndMethod (hr_Pattern rule)
             \<in> {(''custom-unsupported'', []), (''unknown-unsupported'', [])}"
    using r(2) by (cases "hr_Pattern rule") auto
  have app: "addMethodsV3 service (xs @ ys) st = addMethodsV3 service ys (addMethodsV3 service xs st)"
    for xs ys st
  proof (induction xs arbitrary: st)
    case Nil
    then show ?case by simp
  next
    case (Cons x xs)
    obtain g1 d1 n1 where st: "st = (g1, d1, n1)" by (cases st) auto
    show ?case
      by (simp add: st Let_def Cons.IH split: option.splits prod.splits)
  qed
  obtain g0 d0 n0 where b: "addMethodsV3 service before (g, d, n) = (g0, d0, n0)"
    by (cases "addMethodsV3 service before (g, d, n)") auto
  have e: "addMethodsV3 service [] (g0, d0, Suc n0) = (g0, d0, Suc n0)"
    by simp
  have "addMethodsV3 service (before @ [method]) (g, d, n) = (g0, d0, Suc n0)"
    using addMethodsV3_unsupported[OF assms, of service "[]" g0 d0 n0] e
    by (simp add: app b del: addMethodsV3.simps)
  then show ?thesis
    using r a addMethodsV3_unsupported[OF assms] b by (auto simp: Let_def)
qed

text \<open>A method with the custom pattern \<open>HEAD /v1/x\<close> leaves the empty document empty.\<close>

theorem unsupported_pattern_never_registered_witness:
  "unsupportedMethod
     (exampleMethod ''Watch'' (Some \<lparr> hr_Pattern = HttpRule_Custom ''HEAD'' ''/v1/x'', hr_Body = [] \<rparr>))
   \<and> addMethodsV3 \<lparr> sv_GoName = ''Library'', sv_Leading = [], sv_Methods = [] \<rparr>
       [exampleMethod ''Watch''
          (Some \<lparr> hr_Pattern = HttpRule_Custom ''HEAD'' ''/v1/x'', hr_Body = [] \<rparr>)]
       (exampleGenerator, newDocument exampleGenerator, 0)
     = (exampleGenerator, newDocument exampleGenerator, 1)"
proof -
  have u: "unsupportedMethod
     (exampleMethod ''Watch'' (Some \<lparr> hr_Pattern = HttpRule_Custom ''HEAD'' ''/v1/x'', hr_Body = [] \<rparr>))"
    by (simp add: unsupportedMethod_def exampleMethod_def)
  show ?thesis
    using u unsupported_pattern_never_registered[OF u,
        of "\<lparr> sv_GoName = ''Library'', sv_Leading = [], sv_Methods = [] \<rparr>" "[]"
           exampleGenerator "newDocument exampleGenerator" 0 "[]"]
    by simp
qed

subsection \<open>Tags\<close>

text \<open>
  C10.  \<open>addPathsToDocumentV3\<close> appends one tag for every service that has a method with
  an HTTP annotation, whatever the pattern of the annotation; so a service whose
  annotated methods all have a custom pattern or no pattern adds its tag and nothing
  else: no operation, no path, and the generator is unchanged.
\<close>

theorem tag_for_every_annotated_service:
  "d_Tags (snd (addPathsToDocumentV3 (g, d) file))
     = d_Tags d @
       map (\<lambda>service. \<lparr> t_Name = sv_GoName service,
                         t_Description = filterCommentString (sv_Leading service) False \<rparr>)
         (filter (\<lambda>service. \<exists>method \<in> set (sv_Methods service). annotated method)
            (fl_Services file))
   \<and> (fl_Services file = [service]
        \<and> (\<exists>method \<in> set (sv_Methods service). annotated method)
        \<and> (\<forall>method \<in> set (sv_Methods service). annotated method \<longrightarrow> unsupportedMethod method)
      \<longrightarrow> addPathsToDocumentV3 (g, d) file
           = (g, d\<lparr>d_Tags := d_Tags d @
                     [\<lparr> t_Name = sv_GoName service,
                        t_Description = filterCommentString (sv_Leading service) False \<rparr>]\<rparr>))"
proof -
  have pos: "(0 < length (filter annotated ms)) = (\<exists>m \<in> set ms. annotated m)" for ms
    by (induction ms) auto
  have tags: "d_Tags (snd (addServicesV3 services (g, d)))
     = d_Tags d @
       map (\<lambda>service. \<lparr> t_Name = sv_GoName service,
                         t_Description = filterCommentString (sv_Leading service) False \<rparr>)
         (filter (\<lambda>service. \<exists>method \<in> set (sv_Methods service). annotated method) services)"
    for services g d
  proof (induction services arbitrary: g d)
    case Nil
    then show ?case by simp
  next
    case (Cons s services)
    obtain g1 d1 n1 where r: "addMethodsV3 s (sv_Methods s) (g, d, 0) = (g1, d1, n1)"
      by (cases "addMethodsV3 s (sv_Methods s) (g, d, 0)") auto
    have t: "d_Tags d1 = d_Tags d"
      using addMethodsV3_tags[of s "sv_Methods s" g d 0] r by simp
    have n: "n1 = length (filter annotated (sv_Methods s))"
      using addMethodsV3_count[of s "sv_Methods s" g d 0] r by simp
    show ?case
      using pos[of "sv_Methods s"]
      by (simp add: r Let_def Cons.IH t n del: addMethodsV3.simps)
  qed
  have one: "addServicesV3 [service] (g, d)
           = (g, d\<lparr>d_Tags := d_Tags d @
                     [\<lparr> t_Name = sv_GoName service,
                        t_Description = filterCommentString (sv_Leading service) False \<rparr>]\<rparr>)"
    if a: "\<exists>method \<in> set (sv_Methods service). annotated method"
      and u: "\<forall>method \<in> set (sv_Methods service). annotated method \<longrightarrow> unsupportedMethod method"
  proof -
    have "\<forall>m \<in> set (sv_Methods service). me_Http m = None \<or> unsupportedMethod m"
      using u by (auto simp: annotated_def)
    from addMethodsV3_all_unsupported[OF this, of service g d 0]
    show ?thesis
      using pos[of "sv_Methods service"] a by (simp add: Let_def del: addMethodsV3.simps)
  qed
  from tags[of "fl_Services file" g d] one show ?thesis
    by (auto simp: addPathsToDocumentV3_def simp del: addServicesV3.simps)
qed

text \<open>The service \<open>Library\<close> with the only method \<open>Watch\<close>, of a custom pattern.\<close>

theorem tag_for_every_annotated_service_witness:
  "addPathsToDocumentV3 (exampleGenerator, newDocument exampleGenerator)
     \<lparr> fl_Generate = True,
       fl_Services =
         [\<lparr> sv_GoName = ''Library'', sv_Leading = ''The library.'',
            sv_Methods = [exampleMethod ''Watch''
              (Some \<lparr> hr_Pattern = HttpRule_Custom ''HEAD'' ''/v1/x'', hr_Body = [] \<rparr>)] \<rparr>],
       fl_Messages = [] \<rparr>
   = (exampleGenerator,
      (newDocument exampleGenerator)
        \<lparr>d_Tags := [\<lparr> t_Name = ''Library'', t_Description = ''The library.'' \<rparr>]\<rparr>)
   \<and> d_Paths ((newDocument exampleGenerator)
        \<lparr>d_Tags := [\<lparr> t_Name = ''Library'', t_Description = ''The library.'' \<rparr>]\<rparr>) = []"
proof -
  have c: "filterCommentString ''The library.'' False = ''The library.''"
    by code_simp
  show ?thesis
    using tag_for_every_annotated_service[of exampleGenerator "newDocument exampleGenerator"
       "\<lparr> fl_Generate = True,
          fl_Services =
            [\<lparr> sv_GoName = ''Library'', sv_Leading = ''The library.'',
               sv_Methods = [exampleMethod ''Watch''
                 (Some \<lparr> hr_Pattern = HttpRule_Custom ''HEAD'' ''/v1/x'', hr_Body = [] \<rparr>)] \<rparr>],
          fl_Messages = [] \<rparr>"
       "\<lparr> sv_GoName = ''Library'', sv_Leading = ''The library.'',
          sv_Methods = [exampleMethod ''Watch''
            (Some \<lparr> hr_Pattern = HttpRule_Custom ''HEAD'' ''/v1/x'', hr_Body = [] \<rparr>)] \<rparr>"]
    by (simp add: c annotated_def unsupportedMethod_def exampleMethod_def newDocument_def
        del: addServicesV3.simps)
qed

subsection \<open>Query parameters\<close>

lemma schemaReferenceForTypeName_conf:
  "conf (snd (schemaReferenceForTypeName g t)) = conf g"
  by (simp add: schemaReferenceForTypeName_def Let_def)

lemma schemaReferenceForTypeName_fst:
  "conf g = conf g' \<Longrightarrow>
   fst (schemaReferenceForTypeName g t) = fst (schemaReferenceForTypeName g' t)"
  by (simp add: schemaReferenceForTypeName_def Let_def formatMessageRef_def)

lemma schemaOrReferenceForType_conf:
  "conf (snd (schemaOrReferenceForType g t)) = conf g"
  by (simp add: schemaOrReferenceForType_def schemaReferenceForTypeName_conf split: prod.splits)
     (metis schemaReferenceForTypeName_conf snd_conv)

lemma schemaOrReferenceForType_fst:
  "conf g = conf g' \<Longrightarrow>
   fst (schemaOrReferenceForType g t) = fst (schemaOrReferenceForType g' t)"
  using schemaReferenceForTypeName_fst[of g g' t]
  by (auto simp: schemaOrReferenceForType_def split: prod.splits)

lemma kindSchemaFor_conf: "conf (snd (kindSchemaFor g field)) = conf g"
  by (simp add: kindSchemaFor_def Let_def schemaOrReferenceForType_conf)

lemma kindSchemaFor_fst:
  "conf g = conf g' \<Longrightarrow> fst (kindSchemaFor g field) = fst (kindSchemaFor g' field)"
  using schemaOrReferenceForType_fst[of g g']
  by (simp add: kindSchemaFor_def Let_def)

lemma schemaOrReferenceForField_conf:
  "conf (snd (schemaOrReferenceForField g field)) = conf g"
proof (induction g field rule: schemaOrReferenceForField.induct)
  case (1 g name json kind isList mapValue msg enums fb rules leading)
  show ?case
  proof (cases mapValue)
    case None
    then show ?thesis
      using kindSchemaFor_conf[of g "Field name json kind isList None msg enums fb rules leading"]
      by (auto simp: Let_def split: prod.splits)
  next
    case (Some v)
    then show ?thesis using 1 by (auto simp: Let_def split: prod.splits)
  qed
qed

lemma schemaOrReferenceForField_fst:
  "conf g = conf g' \<Longrightarrow>
   fst (schemaOrReferenceForField g field) = fst (schemaOrReferenceForField g' field)"
proof (induction g field arbitrary: g' rule: schemaOrReferenceForField.induct)
  case (1 g name json kind isList mapValue msg enums fb rules leading)
  show ?case
  proof (cases mapValue)
    case None
    then show ?thesis
      using kindSchemaFor_fst[OF "1.prems",
          of "Field name json kind isList None msg enums fb rules leading"]
      by (auto simp: Let_def split: prod.splits)
  next
    case (Some v)
    then show ?thesis
      using "1.IH"[OF Some "1.prems"] by (auto simp: Let_def split: prod.splits)
  qed
qed

lemma queryParameters_conf: "conf (snd (queryParameters g covered fs)) = conf g"
proof (induction fs arbitrary: g)
  case Nil
  then show ?case by simp
next
  case (Cons f fs)
  show ?case
    using Cons[of "snd (schemaOrReferenceForField g f)"] Cons[of g]
      schemaOrReferenceForField_conf[of g f]
    by (auto simp: Let_def split: prod.splits)
qed

lemma formatFieldName_conf:
  "conf g = conf g' \<Longrightarrow> formatFieldName g field = formatFieldName g' field"
  by (simp add: formatFieldName_def)

lemma queryParameterOf_conf:
  "conf g = conf g' \<Longrightarrow> queryParameterOf g field = queryParameterOf g' field"
  using schemaOrReferenceForField_fst[of g g' field] formatFieldName_conf[of g g' field]
  by (simp add: queryParameterOf_def)

lemma queryParameters_map:
  "fst (queryParameters g covered fs) =
     map (queryParameterOf g) (filter (\<lambda>field. \<not> contains covered (f_Name field)) fs)"
proof (induction fs arbitrary: g)
  case Nil
  then show ?case by simp
next
  case (Cons f fs)
  show ?case
  proof (cases "contains covered (f_Name f)")
    case True
    then show ?thesis using Cons by simp
  next
    case False
    obtain s g1 where r: "schemaOrReferenceForField g f = (s, g1)"
      by (cases "schemaOrReferenceForField g f") auto
    have c: "conf g1 = conf g"
      using schemaOrReferenceForField_conf[of g f] r by simp
    have "map (queryParameterOf g1) xs = map (queryParameterOf g) xs" for xs
      using queryParameterOf_conf[OF c] by simp
    then show ?thesis
      using False Cons[of g1] r
      by (auto simp: Let_def queryParameterOf_def split: prod.splits)
  qed
qed

lemma contains_iff: "contains s e = (e \<in> set s)"
  by (induction s) auto

lemma simplePathParameters_covered:
  "fst (simplePathParameters g m ms (c, p, pp)) = c @ ms"
  by (induction ms arbitrary: c p pp) (auto simp: Let_def)


lemma coveredParametersOf_eq:
  "coveredParametersOf g path bodyField inputMessage =
     (if bodyField \<noteq> [] then [bodyField] else []) @ pathPatternFindAll path @
     (case namedPathPatternFind
             (fst (snd (simplePathParameters g inputMessage (pathPatternFindAll path)
                          ((if bodyField \<noteq> [] then [bodyField] else []), path, [])))) of
        None \<Rightarrow> []
      | Some (m0, m1, starredPath) \<Rightarrow> [m1])"
proof -
  obtain c1 p1 pp where sp:
    "simplePathParameters g inputMessage (pathPatternFindAll path)
       ((if bodyField \<noteq> [] then [bodyField] else []), path, []) = (c1, p1, pp)"
    by (metis prod_cases3)
  have c1: "c1 = (if bodyField \<noteq> [] then [bodyField] else []) @ pathPatternFindAll path"
    using simplePathParameters_covered[of g inputMessage "pathPatternFindAll path"
        "(if bodyField \<noteq> [] then [bodyField] else [])" path "[]"] sp
    by simp
  show ?thesis
    using sp c1
    by (auto simp: coveredParametersOf_def namedPathParameters_def Let_def
        split: option.splits prod.splits)
qed

lemma buildOperationV3_parameters:
  "\<exists>pathParameters.
      op_Parameters (fst (fst (buildOperationV3 g summary operationID tagName description path
                                 bodyField inputMessage outputMessage)))
        = pathParameters @
          (if bodyField \<noteq> ''*'' then
             map (queryParameterOf g)
               (filter (\<lambda>field. \<not> contains (coveredParametersOf g path bodyField inputMessage)
                                     (f_Name field))
                  (m_Fields inputMessage))
           else [])
      \<and> (\<forall>p \<in> set pathParameters. p_In p = ''path'' \<and> p_Required p)"
proof -
  obtain c1 p1 pp where sp:
    "simplePathParameters g inputMessage (pathPatternFindAll path)
       ((if bodyField \<noteq> [] then [bodyField] else []), path, []) = (c1, p1, pp)"
    by (metis prod_cases3)
  obtain c2 p2 np where nn: "namedPathParameters g inputMessage (c1, p1) = (c2, p2, np)"
    by (metis prod_cases3)
  have cov: "coveredParametersOf g path bodyField inputMessage = c2"
    using sp nn by (simp add: coveredParametersOf_def)
  obtain q g1 where qq: "queryParameters g c2 (m_Fields inputMessage) = (q, g1)"
    by (cases "queryParameters g c2 (m_Fields inputMessage)") auto
  have q: "q = map (queryParameterOf g)
                 (filter (\<lambda>field. \<not> contains c2 (f_Name field)) (m_Fields inputMessage))"
    using queryParameters_map[of g c2 "m_Fields inputMessage"] qq by simp
  let ?pathParameters =
    "map (\<lambda>pathParameter. pathParameterOf pathParameter []) pp @
     map (\<lambda>namedPathParameter.
            pathParameterOf namedPathParameter (''The '' @ namedPathParameter @ '' id.'')) np"
  have "op_Parameters (fst (fst (buildOperationV3 g summary operationID tagName description path
                                 bodyField inputMessage outputMessage)))
        = ?pathParameters @ (if bodyField \<noteq> ''*'' then q else [])"
    using sp nn qq by (simp add: buildOperationV3_def Let_def split: prod.splits)
  moreover have "\<forall>p \<in> set ?pathParameters. p_In p = ''path'' \<and> p_Required p"
    by (auto simp: pathParameterOf_def)
  ultimately show ?thesis using q cov by blast
qed

lemma coalesceToStringSchema_eq:
  "coalesceToStringSchema schema [''number'', ''integer''] =
     (case schema of
        Some (SchemaOrReference_Schema t items additional properties) \<Rightarrow>
          if s_Type t = ''number'' \<or> s_Type t = ''integer''
          then SchemaOrReference_Schema t items additional properties
          else newSchema (emptySchema\<lparr>s_Type := ''string''\<rparr>)
      | _ \<Rightarrow> newSchema (emptySchema\<lparr>s_Type := ''string''\<rparr>))"
  by (auto simp: coalesceToStringSchema_def Let_def split: option.splits SchemaOrReference.splits)

lemma addValidationRules_no_rules:
  "f_Rules field = None \<Longrightarrow> addValidationRules fieldSchema field = fieldSchema"
  by (simp add: addValidationRules_def Let_def split: SchemaOrReference.splits)

text \<open>
  C6 (as amended).  The parameters of an operation are its path parameters, all of them
  required, followed, when the body selector is not \<open>*\<close>, by exactly one query parameter
  for every field of the input message whose name is not covered, in the order of the
  fields; covered are the body selector, the simple path parameters and the name of the
  named path parameter.  The query parameter of a field is not required, has the
  formatted name of the field and the filtered leading comment of the field as
  description; its schema is the schema of the field when that is a schema of type
  \<open>number\<close> or \<open>integer\<close> and the bare schema of type \<open>string\<close> in every other case
  (references, arrays, objects, no schema, and also schemas of type \<open>string\<close> or
  \<open>boolean\<close>, whose format, enum list and nullable flag are lost).  When the
  \<open>validate\<close> option is on, the validation rules of the field are then applied to this
  schema; a field with no rules has none to apply.
\<close>

theorem query_parameters:
  "(\<exists>pathParameters.
      op_Parameters (fst (fst (buildOperationV3 g summary operationID tagName description path
                                 bodyField inputMessage outputMessage)))
        = pathParameters @
          (if bodyField \<noteq> ''*'' then
             map (queryParameterOf g)
               (filter (\<lambda>field. \<not> contains (coveredParametersOf g path bodyField inputMessage)
                                     (f_Name field))
                  (m_Fields inputMessage))
           else [])
      \<and> (\<forall>p \<in> set pathParameters. p_In p = ''path'' \<and> p_Required p))
   \<and> coveredParametersOf g path bodyField inputMessage =
       (if bodyField \<noteq> [] then [bodyField] else []) @ pathPatternFindAll path @
       (case namedPathPatternFind
               (fst (snd (simplePathParameters g inputMessage (pathPatternFindAll path)
                            ((if bodyField \<noteq> [] then [bodyField] else []), path, [])))) of
          None \<Rightarrow> []
        | Some (m0, m1, starredPath) \<Rightarrow> [m1])
   \<and> p_In (queryParameterOf g field) = ''query''
   \<and> \<not> p_Required (queryParameterOf g field)
   \<and> p_Name (queryParameterOf g field) = formatFieldName g field
   \<and> p_Description (queryParameterOf g field) = filterCommentString (f_Leading field) True
   \<and> (c_Validate (conf g) \<longrightarrow>
        p_Schema (queryParameterOf g field) =
          addValidationRules
            (case fst (schemaOrReferenceForField g field) of
               Some (SchemaOrReference_Schema t items additional properties) \<Rightarrow>
                 if s_Type t = ''number'' \<or> s_Type t = ''integer''
                 then SchemaOrReference_Schema t items additional properties
                 else newSchema (emptySchema\<lparr>s_Type := ''string''\<rparr>)
             | _ \<Rightarrow> newSchema (emptySchema\<lparr>s_Type := ''string''\<rparr>))
            field)
   \<and> (f_Rules field = None \<longrightarrow>
        p_Schema (queryParameterOf g field) =
          (case fst (schemaOrReferenceForField g field) of
             Some (SchemaOrReference_Schema t items additional properties) \<Rightarrow>
               if s_Type t = ''number'' \<or> s_Type t = ''integer''
               then SchemaOrReference_Schema t items additional properties
               else newSchema (emptySchema\<lparr>s_Type := ''string''\<rparr>)
           | _ \<Rightarrow> newSchema (emptySchema\<lparr>s_Type := ''string''\<rparr>)))"
  using buildOperationV3_parameters[of g summary operationID tagName description path bodyField
      inputMessage outputMessage]
    coveredParametersOf_eq[of g path bodyField inputMessage]
    coalesceToStringSchema_eq[of "fst (schemaOrReferenceForField g field)"]
    addValidationRules_no_rules[of field]
  by (simp add: queryParameterOf_def)

text \<open>
  C6 (counterexample).  The schema of the bytes field \<open>payload\<close> has type \<open>string\<close> and
  format \<open>bytes\<close>; the schema of its query parameter is the bare string schema, not the
  schema of the field.
\<close>

theorem query_parameter_string_counterexample:
  "fst (schemaOrReferenceForField exampleGenerator (scalarField ''payload'' BytesKind None))
     = Some (newSchema (emptySchema\<lparr>s_Type := ''string'', s_Format := ''bytes''\<rparr>))
   \<and> op_Parameters (fst (fst (buildOperationV3 exampleGenerator [] [] [] []
         ''/v1/messages/{message_id}'' [] exampleRequest (emptyMessage ''Reply''))))
     = [pathParameterOf ''message_id'' [],
        \<lparr> p_Name = ''payload'', p_In = ''query'', p_Description = [], p_Required = False,
          p_Schema = newSchema (emptySchema\<lparr>s_Type := ''string''\<rparr>) \<rparr>,
        \<lparr> p_Name = ''mynum'', p_In = ''query'', p_Description = [], p_Required = False,
          p_Schema = newSchema (emptySchema\<lparr>s_Type := ''integer'', s_Format := ''int64'',
                                            s_Minimum := 1, s_Maximum := 30\<rparr>) \<rparr>]"
  by code_simp

text \<open>The int64 field \<open>mynum\<close> keeps its schema, with the bounds of its rules.\<close>

theorem query_parameters_witness:
  "p_Schema (queryParameterOf exampleGenerator
       (scalarField ''mynum'' Int64Kind
          (Some (FieldRules_Int64 \<lparr> i64_Gte = Some 1, i64_Lte = Some 30 \<rparr>))))
     = newSchema (emptySchema\<lparr>s_Type := ''integer'', s_Format := ''int64'',
                               s_Minimum := 1, s_Maximum := 30\<rparr>)
   \<and> coveredParametersOf exampleGenerator ''/v1/messages/{message_id}'' [] exampleRequest
     = [''message_id'']"
proof -
  let ?field = "scalarField ''mynum'' Int64Kind
          (Some (FieldRules_Int64 \<lparr> i64_Gte = Some 1, i64_Lte = Some 30 \<rparr>))"
  have schema: "addValidationRules
         (case fst (schemaOrReferenceForField exampleGenerator ?field) of
            Some (SchemaOrReference_Schema t items additional properties) \<Rightarrow>
              if s_Type t = ''number'' \<or> s_Type t = ''integer''
              then SchemaOrReference_Schema t items additional properties
              else newSchema (emptySchema\<lparr>s_Type := ''string''\<rparr>)
          | _ \<Rightarrow> newSchema (emptySchema\<lparr>s_Type := ''string''\<rparr>))
         ?field
       = newSchema (emptySchema\<lparr>s_Type := ''integer'', s_Format := ''int64'',
                                 s_Minimum := 1, s_Maximum := 30\<rparr>)"
    by code_simp
  have covered: "[] @ pathPatternFindAll ''/v1/messages/{message_id}'' @
       (case namedPathPatternFind
               (fst (snd (simplePathParameters exampleGenerator exampleRequest
                            (pathPatternFindAll ''/v1/messages/{message_id}'')
                            ([], ''/v1/messages/{message_id}'', [])))) of
          None \<Rightarrow> []
        | Some (m0, m1, starredPath) \<Rightarrow> [m1]) = [''message_id'']"
    by code_simp
  have validate: "c_Validate (conf exampleGenerator)"
    by (simp add: exampleGenerator_def NewOpenAPIv3Generator_def exampleConfiguration_def)
  show ?thesis
    using query_parameters[of exampleGenerator undefined undefined undefined undefined
        "''/v1/messages/{message_id}''" "[]" exampleRequest undefined ?field]
      schema covered validate
    by simp
qed

subsection \<open>The final sorting\<close>

lemma mset_insertionStep: "mset (insertionStep lt x rp) = add_mset x (mset rp)"
  by (induction rp) auto

lemma set_insertionStep: "set (insertionStep lt x rp) = insert x (set rp)"
  by (induction rp) auto

lemma sorted_insertionStep:
  fixes key :: "'a \<Rightarrow> 'k::linorder"
  assumes "sorted (rev (map key rp))"
  shows "sorted (rev (map key (insertionStep (\<lambda>a b. key a < key b) x rp)))"
  using assms
proof (induction rp)
  case Nil
  then show ?case by simp
next
  case (Cons y rp)
  show ?case
  proof (cases "key x < key y")
    case True
    then show ?thesis
      using Cons by (auto simp: sorted_append set_insertionStep)
  next
    case False
    then show ?thesis
      using Cons by (auto simp: sorted_append)
  qed
qed

lemma foldl_insertionStep:
  fixes key :: "'a \<Rightarrow> 'k::linorder"
  assumes "sorted (rev (map key rp))"
  shows "mset (foldl (\<lambda>rp x. insertionStep (\<lambda>a b. key a < key b) x rp) rp xs)
           = mset rp + mset xs
       \<and> sorted (rev (map key (foldl (\<lambda>rp x. insertionStep (\<lambda>a b. key a < key b) x rp) rp xs)))"
  using assms
proof (induction xs arbitrary: rp)
  case Nil
  then show ?case by simp
next
  case (Cons x xs)
  have s: "sorted (rev (map key (insertionStep (\<lambda>a b. key a < key b) x rp)))"
    using sorted_insertionStep[OF Cons.prems] .
  show ?case
    using Cons.IH[OF s] by (simp add: mset_insertionStep)
qed

text \<open>The contract of \<open>sort.Slice\<close> for a comparison of keys.\<close>

lemma sortedSlice_key:
  fixes key :: "'a \<Rightarrow> 'k::linorder"
  shows "sortedSlice (\<lambda>a b. key a < key b) xs ys
           \<longleftrightarrow> mset ys = mset xs \<and> sorted (map key ys)"
proof -
  have "(\<lambda>a b. \<not> key b < key a) = (\<lambda>a b. key a \<le> key b)" by (auto simp: fun_eq_iff)
  then show ?thesis by (simp add: sortedSlice_def sorted_map)
qed

lemma sortedSlice_insertionSort:
  fixes key :: "'a \<Rightarrow> 'k::linorder"
  shows "sortedSlice (\<lambda>a b. key a < key b) xs (insertionSort (\<lambda>a b. key a < key b) xs)"
  using foldl_insertionStep[of key "[]" xs]
  by (simp add: sortedSlice_key insertionSort_def rev_map)

lemma sortedSlice_sortSlice:
  fixes key :: "'a \<Rightarrow> 'k::linorder"
  shows "sortedSlice (\<lambda>a b. key a < key b) xs (sortSlice (\<lambda>a b. key a < key b) xs)"
proof (cases "length xs \<le> 12")
  case True
  then show ?thesis using sortedSlice_insertionSort[of key xs] by (simp add: sortSlice_def)
next
  case False
  have "sortedSlice (\<lambda>a b. key a < key b) xs
          (SOME result. sortedSlice (\<lambda>a b. key a < key b) xs result)"
    using sortedSlice_insertionSort[of key xs] by (rule someI)
  then show ?thesis using False by (simp add: sortSlice_def)
qed

lemma filter_key_distinct:
  "distinct (map key xs) \<Longrightarrow> k \<in> set xs \<Longrightarrow> filter (\<lambda>x. key k = key x) xs = [k]"
proof (induction xs)
  case Nil
  then show ?case by simp
next
  case (Cons a xs)
  show ?case
  proof (cases "k = a")
    case True
    have "filter (\<lambda>x. key a = key x) xs = []"
      using Cons.prems(1) by (auto simp: filter_empty_conv)
    then show ?thesis using True by simp
  next
    case False
    then have "k \<in> set xs" using Cons.prems by auto
    moreover have "key k \<noteq> key a"
      using Cons.prems(1) \<open>k \<in> set xs\<close> by (metis distinct.simps(2) image_eqI list.simps(9) set_map)
    ultimately show ?thesis using Cons by auto
  qed
qed

text \<open>With pairwise different keys the contract leaves one result only.\<close>

lemma sortedSlice_unique:
  fixes key :: "'a \<Rightarrow> 'k::linorder"
  assumes ys: "sortedSlice (\<lambda>a b. key a < key b) xs ys"
    and d: "distinct (map key xs)"
  shows "ys = sort_key key xs"
proof -
  have m: "mset ys = mset xs" and s: "sorted (map key ys)"
    using ys by (simp_all add: sortedSlice_key)
  have "mset (map key ys) = mset (map key xs)" using m by simp
  then have dy: "distinct (map key ys)" using d mset_eq_imp_distinct_iff by blast
  have "sort_key key xs = ys"
  proof (rule properties_for_sort_key)
    show "mset ys = mset xs" by (rule m)
    show "sorted (map key ys)" by (rule s)
    show "filter (\<lambda>x. key k = key x) ys = filter (\<lambda>x. key k = key x) xs" if "k \<in> set ys" for k
    proof -
      have "k \<in> set xs" using that m mset_eq_setD by fastforce
      then show ?thesis
        using filter_key_distinct[OF dy that] filter_key_distinct[OF d] by simp
    qed
  qed
  then show ?thesis by simp
qed

lemma sortedSlice_permutation:
  fixes key :: "'a \<Rightarrow> 'k::linorder"
  assumes "sortedSlice (\<lambda>a b. key a < key b) xs ys"
    and "sortedSlice (\<lambda>a b. key a < key b) xs' ys'"
    and "mset xs = mset xs'" and "distinct (map key xs)"
  shows "ys = ys'"
proof -
  have "sortedSlice (\<lambda>a b. key a < key b) xs ys'"
    using assms(2,3) by (simp add: sortedSlice_key)
  then show ?thesis
    using sortedSlice_unique[OF assms(1,4)] sortedSlice_unique[OF _ assms(4), of ys'] by simp
qed

lemma sortedSlice_idem:
  fixes key :: "'a \<Rightarrow> 'k::linorder"
  assumes "sortedSlice (\<lambda>a b. key a < key b) xs ys"
    and "sortedSlice (\<lambda>a b. key a < key b) ys zs"
    and "distinct (map key xs)"
  shows "zs = ys"
proof -
  have "sortedSlice (\<lambda>a b. key a < key b) xs zs"
    using assms(1,2) by (simp add: sortedSlice_key)
  then show ?thesis
    using sortedSlice_unique[OF assms(1,3)] sortedSlice_unique[OF _ assms(3), of zs] by simp
qed

lemma sortDocument_sorted:
  "sortedSlice (\<lambda>a b. t_Name a < t_Name b) (d_Tags d) (d_Tags (sortDocument d))"
  "sortedSlice (\<lambda>a b. fst a < fst b) (d_Paths d) (d_Paths (sortDocument d))"
  "sortedSlice (\<lambda>a b. fst a < fst b) (d_Schemas d) (d_Schemas (sortDocument d))"
  by (simp_all add: sortDocument_def sortedSlice_sortSlice)

lemma sortDocument_mset:
  "mset (d_Tags (sortDocument d)) = mset (d_Tags d)"
  "mset (d_Paths (sortDocument d)) = mset (d_Paths d)"
  "mset (d_Schemas (sortDocument d)) = mset (d_Schemas d)"
  using sortDocument_sorted[of d] by (simp_all add: sortedSlice_key)

text \<open>
  C8 (counterexample).  Two files, each with a service of the name \<open>Library\<close>: the two
  tags have the same name, and the order in which the document lists them is the order
  of the files.
\<close>

theorem canonical_order_counterexample:
  "map_option (\<lambda>r. map t_Description (d_Tags (snd r)))
     (buildDocumentV3 exampleGenerator
        [libraryFile ''The first.'' ''/v1/a'', libraryFile ''The second.'' ''/v1/b''])
     = Some [''The first.'', ''The second.'']
   \<and> map_option (\<lambda>r. map t_Description (d_Tags (snd r)))
     (buildDocumentV3 exampleGenerator
        [libraryFile ''The second.'' ''/v1/b'', libraryFile ''The first.'' ''/v1/a''])
     = Some [''The second.'', ''The first.'']"
  by code_simp

text \<open>
  C8 (as amended).  The last pass of \<open>buildDocumentV3\<close> sorts the tags by name, the paths
  by their template and the component schemas by name, in the lexicographic order of the
  bytes of the key: each sorted list is a rearrangement of the list before, and the lists
  of the document that \<open>buildDocumentV3\<close> returns are sorted.  When the keys of a list are
  pairwise different, its sorted list is the only one that the contract of \<open>sort.Slice\<close>
  allows, sorting it again gives the same list, and every list with the same entries in
  another order is sorted to the same list.  Nothing is said about the order among
  entries with the same key.
\<close>

theorem canonical_order:
  "sorted (map t_Name (d_Tags (sortDocument d)))
   \<and> sorted (map fst (d_Paths (sortDocument d)))
   \<and> sorted (map fst (d_Schemas (sortDocument d)))
   \<and> mset (d_Tags (sortDocument d)) = mset (d_Tags d)
   \<and> mset (d_Paths (sortDocument d)) = mset (d_Paths d)
   \<and> mset (d_Schemas (sortDocument d)) = mset (d_Schemas d)
   \<and> (distinct (map t_Name (d_Tags d)) \<longrightarrow>
        (\<forall>tags. sortedSlice (\<lambda>a b. t_Name a < t_Name b) (d_Tags d) tags
                  \<longrightarrow> tags = d_Tags (sortDocument d))
        \<and> d_Tags (sortDocument (sortDocument d)) = d_Tags (sortDocument d)
        \<and> (mset (d_Tags d') = mset (d_Tags d)
             \<longrightarrow> d_Tags (sortDocument d') = d_Tags (sortDocument d)))
   \<and> (distinct (map fst (d_Paths d)) \<longrightarrow>
        (\<forall>paths. sortedSlice (\<lambda>a b. fst a < fst b) (d_Paths d) paths
                  \<longrightarrow> paths = d_Paths (sortDocument d))
        \<and> d_Paths (sortDocument (sortDocument d)) = d_Paths (sortDocument d)
        \<and> (mset (d_Paths d') = mset (d_Paths d)
             \<longrightarrow> d_Paths (sortDocument d') = d_Paths (sortDocument d)))
   \<and> (distinct (map fst (d_Schemas d)) \<longrightarrow>
        (\<forall>schemas. sortedSlice (\<lambda>a b. fst a < fst b) (d_Schemas d) schemas
                  \<longrightarrow> schemas = d_Schemas (sortDocument d))
        \<and> d_Schemas (sortDocument (sortDocument d)) = d_Schemas (sortDocument d)
        \<and> (mset (d_Schemas d') = mset (d_Schemas d)
             \<longrightarrow> d_Schemas (sortDocument d') = d_Schemas (sortDocument d)))
   \<and> (buildDocumentV3 g files = Some (g', built) \<longrightarrow>
        sorted (map t_Name (d_Tags built)) \<and> sorted (map fst (d_Paths built))
        \<and> sorted (map fst (d_Schemas built)))"
proof -
  have srt: "sorted (map t_Name (d_Tags (sortDocument e)))"
      "sorted (map fst (d_Paths (sortDocument e)))"
      "sorted (map fst (d_Schemas (sortDocument e)))" for e
    using sortDocument_sorted[of e] by (simp_all add: sortedSlice_key)
  have part: "(\<forall>ys. sortedSlice (\<lambda>a b. key a < key b) xs ys \<longrightarrow> ys = s xs)
        \<and> s (s xs) = s xs
        \<and> (mset xs' = mset xs \<longrightarrow> s xs' = s xs)"
    if "\<And>zs. sortedSlice (\<lambda>a b. key a < key b) zs (s zs)" and "distinct (map key xs)"
    for key :: "'a \<Rightarrow> string" and s xs xs'
  proof (intro conjI allI impI)
    fix ys assume "sortedSlice (\<lambda>a b. key a < key b) xs ys"
    then show "ys = s xs"
      using sortedSlice_unique[OF _ that(2)] that(1)[of xs] by metis
  next
    show "s (s xs) = s xs"
      using sortedSlice_idem[OF that(1)[of xs] that(1)[of "s xs"] that(2)] .
  next
    assume "mset xs' = mset xs"
    then show "s xs' = s xs"
      using sortedSlice_permutation[OF that(1)[of xs] that(1)[of xs'] _ that(2)] by simp
  qed
  have tags: "distinct (map t_Name (d_Tags d)) \<longrightarrow>
        (\<forall>tags. sortedSlice (\<lambda>a b. t_Name a < t_Name b) (d_Tags d) tags
                  \<longrightarrow> tags = d_Tags (sortDocument d))
        \<and> d_Tags (sortDocument (sortDocument d)) = d_Tags (sortDocument d)
        \<and> (mset (d_Tags d') = mset (d_Tags d)
             \<longrightarrow> d_Tags (sortDocument d') = d_Tags (sortDocument d))"
    using part[of t_Name "sortSlice (\<lambda>a b. t_Name a < t_Name b)" "d_Tags d" "d_Tags d'"]
      sortedSlice_sortSlice[of t_Name]
    by (simp add: sortDocument_def; blast)
  have paths: "distinct (map fst (d_Paths d)) \<longrightarrow>
        (\<forall>paths. sortedSlice (\<lambda>a b. fst a < fst b) (d_Paths d) paths
                  \<longrightarrow> paths = d_Paths (sortDocument d))
        \<and> d_Paths (sortDocument (sortDocument d)) = d_Paths (sortDocument d)
        \<and> (mset (d_Paths d') = mset (d_Paths d)
             \<longrightarrow> d_Paths (sortDocument d') = d_Paths (sortDocument d))"
    using part[of fst "sortSlice (\<lambda>a b. fst a < fst b)" "d_Paths d" "d_Paths d'"]
      sortedSlice_sortSlice[of "fst :: string \<times> PathItem \<Rightarrow> string"]
    by (simp add: sortDocument_def; blast)
  have schemas: "distinct (map fst (d_Schemas d)) \<longrightarrow>
        (\<forall>schemas. sortedSlice (\<lambda>a b. fst a < fst b) (d_Schemas d) schemas
                  \<longrightarrow> schemas = d_Schemas (sortDocument d))
        \<and> d_Schemas (sortDocument (sortDocument d)) = d_Schemas (sortDocument d)
        \<and> (mset (d_Schemas d') = mset (d_Schemas d)
             \<longrightarrow> d_Schemas (sortDocument d') = d_Schemas (sortDocument d))"
    using part[of fst "sortSlice (\<lambda>a b. fst a < fst b)" "d_Schemas d" "d_Schemas d'"]
      sortedSlice_sortSlice[of "fst :: string \<times> SchemaOrReference \<Rightarrow> string"]
    by (simp add: sortDocument_def; blast)
  have b: "sorted (map t_Name (d_Tags built)) \<and> sorted (map fst (d_Paths built))
        \<and> sorted (map fst (d_Schemas built))" if "buildDocumentV3 g files = Some (g', built)"
  proof -
    obtain g1 d1 where a: "addPathsOfFiles files (g, newDocument g) = (g1, d1)"
      by (cases "addPathsOfFiles files (g, newDocument g)") auto
    show ?thesis
    proof (cases "schemaLoop files (g1, singleServiceTitle d1)")
      case None
      then show ?thesis using that a by (simp add: buildDocumentV3_def)
    next
      case (Some r)
      obtain g2 d2 where r: "r = (g2, d2)" by (cases r) auto
      have "built = sortDocument d2"
        using that a Some r by (simp add: buildDocumentV3_def)
      then show ?thesis using srt[of d2] by simp
    qed
  qed
  show ?thesis
    using srt[of d] sortDocument_mset[of d] tags paths schemas b by blast
qed

text \<open>
  The tags \<open>Shelves\<close>, \<open>Books\<close> and the tags \<open>Books\<close>, \<open>Shelves\<close> give the same list, which
  is the one sorted list of the two tags.
\<close>

theorem canonical_order_witness:
  "distinct (map t_Name [\<lparr>t_Name = ''Shelves'', t_Description = []\<rparr>,
                         \<lparr>t_Name = ''Books'', t_Description = []\<rparr>])
   \<and> d_Tags (sortDocument ((newDocument exampleGenerator)
           \<lparr>d_Tags := [\<lparr>t_Name = ''Books'', t_Description = []\<rparr>,
                       \<lparr>t_Name = ''Shelves'', t_Description = []\<rparr>]\<rparr>))
     = d_Tags (sortDocument ((newDocument exampleGenerator)
           \<lparr>d_Tags := [\<lparr>t_Name = ''Shelves'', t_Description = []\<rparr>,
                       \<lparr>t_Name = ''Books'', t_Description = []\<rparr>]\<rparr>))
   \<and> d_Tags (sortDocument ((newDocument exampleGenerator)
           \<lparr>d_Tags := [\<lparr>t_Name = ''Shelves'', t_Description = []\<rparr>,
                       \<lparr>t_Name = ''Books'', t_Description = []\<rparr>]\<rparr>))
     = [\<lparr>t_Name = ''Books'', t_Description = []\<rparr>, \<lparr>t_Name = ''Shelves'', t_Description = []\<rparr>]"
proof -
  let ?d = "(newDocument exampleGenerator)
           \<lparr>d_Tags := [\<lparr>t_Name = ''Shelves'', t_Description = []\<rparr>,
                       \<lparr>t_Name = ''Books'', t_Description = []\<rparr>]\<rparr>"
  let ?d' = "(newDocument exampleGenerator)
           \<lparr>d_Tags := [\<lparr>t_Name = ''Books'', t_Description = []\<rparr>,
                       \<lparr>t_Name = ''Shelves'', t_Description = []\<rparr>]\<rparr>"
  let ?sorted = "[\<lparr>t_Name = ''Books'', t_Description = []\<rparr>,
                  \<lparr>t_Name = ''Shelves'', t_Description = []\<rparr>]"
  have m: "mset (d_Tags ?d') = mset (d_Tags ?d)" by simp
  have n: "distinct (map t_Name (d_Tags ?d))" by simp
  have c: "sortedSlice (\<lambda>a b. t_Name a < t_Name b) (d_Tags ?d) ?sorted"
    by (simp add: sortedSlice_def)
  from canonical_order[of ?d ?d'] m n c
  have "d_Tags (sortDocument ?d') = d_Tags (sortDocument ?d)"
    and "?sorted = d_Tags (sortDocument ?d)" by blast+
  with n show ?thesis by simp
qed

subsection \<open>The schema loop\<close>

text \<open>
  \<open>addSchemasToDocumentV3\<close> goes through the messages in the order of \<open>allMessages\<close>,
  and one pass of the loop goes through all the messages that the files declare.
\<close>

lemma addSchemasToDocumentV3_foldl:
  "addSchemasToDocumentV3 st messages = foldl addSchema st (allMessages messages)"
proof (induction st messages rule: addSchemasToDocumentV3.induct)
  case (1 st)
  show ?case by simp
next
  case (2 st desc fs nested leading resource messages)
  obtain g d where n: "addSchemasToDocumentV3 st nested = (g, d)"
    by (cases "addSchemasToDocumentV3 st nested")
  have nested: "foldl addSchema st (allMessages nested) = (g, d)"
    using 2(1) n by simp
  let ?m = "Message desc fs nested leading resource"
  let ?T = "fullMessageTypeName desc"
  show ?case
  proof (cases "\<not> contains (requiredSchemas g) ?T \<or> contains (generatedSchemas g) ?T")
    case True
    have "addSchemasToDocumentV3 (g, d) messages = foldl addSchema (g, d) (allMessages messages)"
      using 2(2)[OF refl refl n[symmetric] refl refl True] .
    moreover have "addSchema (g, d) ?m = (g, d)"
      using True by (simp add: addSchema_def)
    ultimately show ?thesis using True n nested by simp
  next
    case False
    obtain g2 properties requiredProperties where dp:
      "definitionProperties (case resource of Some (p # ps) \<Rightarrow> p | _ \<Rightarrow> []) fs
         (g\<lparr>generatedSchemas := generatedSchemas g @ [?T]\<rparr>, [], []) =
       (g2, properties, requiredProperties)"
      by (metis prod_cases3)
    let ?d = "d\<lparr>d_Schemas := d_Schemas d @
                [(formatMessageName g2 ?m,
                  SchemaOrReference_Schema
                    (emptySchema\<lparr>s_Description := filterCommentString leading True,
                                  s_Required := requiredProperties\<rparr>)
                    [] None (Some properties))]\<rparr>"
    have "addSchemasToDocumentV3 (g2, ?d) messages = foldl addSchema (g2, ?d) (allMessages messages)"
      using 2(3)[OF refl refl n[symmetric] refl refl False refl refl refl dp[symmetric] refl refl] .
    moreover have "addSchema (g, d) ?m = (g2, ?d)"
      using False dp by (simp add: addSchema_def Let_def)
    ultimately show ?thesis using False n nested dp by (simp add: Let_def)
  qed
qed

lemma addSchemasOfFiles_foldl:
  "addSchemasOfFiles files st = foldl addSchema st (declaredMessages files)"
  by (induction files arbitrary: st)
     (simp_all add: declaredMessages_def addSchemasToDocumentV3_foldl)

lemma set_foldl_appendUnique: "set (foldl appendUnique xs ts) = set xs \<union> set ts"
  by (induction ts arbitrary: xs) (auto simp: appendUnique_def contains_iff)

lemma foldl_appendUnique_prefix: "\<exists>add. foldl appendUnique xs ts = xs @ add"
proof (induction ts arbitrary: xs)
  case Nil
  show ?case by simp
next
  case (Cons t ts)
  obtain add where "foldl appendUnique (appendUnique xs t) ts = appendUnique xs t @ add"
    using Cons[of "appendUnique xs t"] by blast
  then have "foldl appendUnique xs (t # ts) = appendUnique xs t @ add" by simp
  moreover have "\<exists>a. appendUnique xs t = xs @ a" by (simp add: appendUnique_def)
  ultimately show ?case by (metis append.assoc)
qed

lemma foldl_appendUnique_append:
  "foldl appendUnique xs (ts @ us) = foldl appendUnique (foldl appendUnique xs ts) us"
  by simp

lemma schemaReferenceForTypeName_snd:
  "snd (schemaReferenceForTypeName g t) = g\<lparr>requiredSchemas := appendUnique (requiredSchemas g) t\<rparr>"
  by (simp add: schemaReferenceForTypeName_def Let_def appendUnique_def)

lemma schemaOrReferenceForType_snd:
  "snd (schemaOrReferenceForType g t) =
     (if contains wellKnownTypeNames t then g
      else g\<lparr>requiredSchemas := appendUnique (requiredSchemas g) t\<rparr>)"
  using schemaReferenceForTypeName_snd[of g t]
  by (auto simp: schemaOrReferenceForType_def wellKnownTypeNames_def split: prod.splits)

lemma kindSchemaFor_snd:
  "snd (kindSchemaFor g field) =
     (if f_Kind field = MessageKind
         \<and> \<not> contains wellKnownTypeNames (fullMessageTypeName (f_Message field))
      then g\<lparr>requiredSchemas :=
                appendUnique (requiredSchemas g) (fullMessageTypeName (f_Message field))\<rparr>
      else g)"
  by (simp add: kindSchemaFor_def Let_def schemaOrReferenceForType_snd)

lemma schemaOrReferenceForField_snd:
  "snd (schemaOrReferenceForField g field) =
     g\<lparr>requiredSchemas := foldl appendUnique (requiredSchemas g) (fieldTypeNames field)\<rparr>"
proof (induction g field rule: schemaOrReferenceForField.induct)
  case (1 g name json kind isList mapValue msg enums fb rules leading)
  show ?case
  proof (cases mapValue)
    case None
    then show ?thesis
      using kindSchemaFor_snd[of g "Field name json kind isList None msg enums fb rules leading"]
      by (auto simp: Let_def split: prod.splits)
  next
    case (Some v)
    then show ?thesis using 1 by (auto simp: Let_def split: prod.splits)
  qed
qed

lemma definitionProperties_fst:
  "fst (definitionProperties pattern fs (g, ps, rs)) =
     g\<lparr>requiredSchemas := foldl appendUnique (requiredSchemas g) (concat (map fieldTypeNames fs))\<rparr>"
proof (induction fs arbitrary: g ps rs)
  case Nil
  show ?case by simp
next
  case (Cons f fs)
  obtain s g1 where r: "schemaOrReferenceForField g f = (s, g1)"
    by (cases "schemaOrReferenceForField g f")
  have g1: "g1 = g\<lparr>requiredSchemas := foldl appendUnique (requiredSchemas g) (fieldTypeNames f)\<rparr>"
    using schemaOrReferenceForField_snd[of g f] r by simp
  show ?case
  proof (cases s)
    case None
    then show ?thesis using r Cons[of g1 ps rs] g1 by (simp add: Let_def)
  next
    case (Some fieldSchema)
    then show ?thesis using r g1 by (simp add: Cons Let_def split: prod.splits)
  qed
qed

text \<open>What \<open>addSchema\<close> does with a message that it skips and with one that it generates.\<close>

lemma addSchema_skip:
  "typeNameOf m \<notin> set (requiredSchemas (fst st)) \<or> typeNameOf m \<in> set (generatedSchemas (fst st))
   \<Longrightarrow> addSchema st m = st"
  by (cases st) (simp add: addSchema_def typeNameOf_def contains_iff)

lemma addSchema_generate:
  assumes "typeNameOf m \<in> set (requiredSchemas g)" "typeNameOf m \<notin> set (generatedSchemas g)"
  shows "\<exists>schema. addSchema (g, d) m =
           (g\<lparr>generatedSchemas := generatedSchemas g @ [typeNameOf m],
               requiredSchemas := foldl appendUnique (requiredSchemas g) (messageTypeNames m)\<rparr>,
            d\<lparr>d_Schemas := d_Schemas d @ [(formatMessageName g m, schema)]\<rparr>)"
proof -
  let ?pattern = "case m_Resource m of Some (p # ps) \<Rightarrow> p | _ \<Rightarrow> []"
  let ?g = "g\<lparr>generatedSchemas := generatedSchemas g @ [typeNameOf m]\<rparr>"
  obtain g2 properties requiredProperties where dp:
    "definitionProperties ?pattern (m_Fields m) (?g, [], []) = (g2, properties, requiredProperties)"
    by (metis prod_cases3)
  have g2: "g2 = ?g\<lparr>requiredSchemas := foldl appendUnique (requiredSchemas ?g) (messageTypeNames m)\<rparr>"
    using definitionProperties_fst[of ?pattern "m_Fields m" ?g "[]" "[]"] dp
    by (simp add: messageTypeNames_def)
  have n: "formatMessageName g2 m = formatMessageName g m"
    using g2 by (simp add: formatMessageName_def)
  have "addSchema (g, d) m =
          (g2, d\<lparr>d_Schemas := d_Schemas d @
                  [(formatMessageName g2 m,
                    SchemaOrReference_Schema
                      (emptySchema\<lparr>s_Description := filterCommentString (m_Leading m) True,
                                    s_Required := requiredProperties\<rparr>)
                      [] None (Some properties))]\<rparr>)"
    using assms dp by (simp add: addSchema_def typeNameOf_def contains_iff Let_def)
  then show ?thesis using n g2 by auto
qed

text \<open>The first part of \<open>buildDocumentV3\<close> marks type names as required and adds no schema.\<close>

lemma requiresMore_refl: "requiresMore g g"
  unfolding requiresMore_def by (rule exI[of _ "[]"]) simp

lemma requiresMore_trans:
  assumes "requiresMore a b" "requiresMore b c"
  shows "requiresMore a c"
proof -
  obtain ts where b: "b = a\<lparr>requiredSchemas := foldl appendUnique (requiredSchemas a) ts\<rparr>"
    using assms(1) unfolding requiresMore_def by blast
  obtain us where c: "c = b\<lparr>requiredSchemas := foldl appendUnique (requiredSchemas b) us\<rparr>"
    using assms(2) unfolding requiresMore_def by blast
  have "c = a\<lparr>requiredSchemas := foldl appendUnique (requiredSchemas a) (ts @ us)\<rparr>"
    using b c by simp
  then show ?thesis unfolding requiresMore_def by blast
qed

lemma requiresMore_appendUnique:
  "requiresMore g (g\<lparr>requiredSchemas := foldl appendUnique (requiredSchemas g) ts\<rparr>)"
  unfolding requiresMore_def by blast

lemma requiresMore_generated: "requiresMore g g' \<Longrightarrow> generatedSchemas g' = generatedSchemas g"
  unfolding requiresMore_def by auto

lemma requiresMore_conf: "requiresMore g g' \<Longrightarrow> conf g' = conf g"
  unfolding requiresMore_def by auto

lemma requiresMore_required:
  "requiresMore g g' \<Longrightarrow> \<exists>add. requiredSchemas g' = requiredSchemas g @ add"
  unfolding requiresMore_def using foldl_appendUnique_prefix by auto

lemma requiresMore_schemaReferenceForTypeName:
  "requiresMore g (snd (schemaReferenceForTypeName g t))"
  using requiresMore_appendUnique[of g "[t]"] by (simp add: schemaReferenceForTypeName_snd)

lemma requiresMore_schemaOrReferenceForField:
  "requiresMore g (snd (schemaOrReferenceForField g field))"
  using requiresMore_appendUnique[of g "fieldTypeNames field"]
  by (simp add: schemaOrReferenceForField_snd)

lemma requiresMore_queryParameters: "requiresMore g (snd (queryParameters g covered fs))"
proof (induction fs arbitrary: g)
  case Nil
  show ?case by (simp add: requiresMore_refl)
next
  case (Cons f fs)
  show ?case
  proof (cases "contains covered (f_Name f)")
    case True
    then show ?thesis using Cons by simp
  next
    case False
    obtain s g1 where r: "schemaOrReferenceForField g f = (s, g1)"
      by (cases "schemaOrReferenceForField g f")
    have "requiresMore g g1" using requiresMore_schemaOrReferenceForField[of g f] r by simp
    then have "requiresMore g (snd (queryParameters g1 covered fs))"
      using Cons[of g1] requiresMore_trans by blast
    then show ?thesis using False r by (auto simp: Let_def split: prod.splits)
  qed
qed

lemma requiresMore_schemaReferenceForTypeName_eq:
  "schemaReferenceForTypeName g t = (r, g') \<Longrightarrow> requiresMore g g'"
  using requiresMore_schemaReferenceForTypeName[of g t] by simp

lemma requiresMore_responseContentForMessage:
  "requiresMore g (snd (responseContentForMessage g outputMessage))"
  by (auto simp: responseContentForMessage_def Let_def requiresMore_refl split: prod.splits
           intro: requiresMore_schemaReferenceForTypeName_eq)

lemma requiresMore_requestBodyFor:
  "requiresMore g (snd (requestBodyFor g bodyField inputMessage))"
  by (auto simp: requestBodyFor_def Let_def requiresMore_refl split: prod.splits if_splits
           intro: requiresMore_schemaReferenceForTypeName_eq)

lemma requiresMore_buildOperationV3:
  "requiresMore g (snd (buildOperationV3 g summary operationID tagName description path bodyField
     inputMessage outputMessage))"
proof -
  define g1 where "g1 = (if bodyField \<noteq> ''*''
     then snd (queryParameters g
        (fst (namedPathParameters g inputMessage
           (fst (simplePathParameters g inputMessage (pathPatternFindAll path)
                   (if bodyField \<noteq> [] then [bodyField] else [], path, [])),
            fst (snd (simplePathParameters g inputMessage (pathPatternFindAll path)
                   (if bodyField \<noteq> [] then [bodyField] else [], path, []))))))
        (m_Fields inputMessage)) else g)"
  define g2 where "g2 = snd (responseContentForMessage g1 outputMessage)"
  define g3 where "g3 = (if bodyField \<noteq> [] then snd (requestBodyFor g2 bodyField inputMessage) else g2)"
  have e: "snd (buildOperationV3 g summary operationID tagName description path bodyField
     inputMessage outputMessage) = g3"
    by (simp add: buildOperationV3_def g1_def g2_def g3_def Let_def split: prod.splits)
  have "requiresMore g g1"
    unfolding g1_def using requiresMore_queryParameters requiresMore_refl by simp
  moreover have "requiresMore g1 g2"
    unfolding g2_def by (rule requiresMore_responseContentForMessage)
  moreover have "requiresMore g2 g3"
    unfolding g3_def using requiresMore_requestBodyFor requiresMore_refl by simp
  ultimately show ?thesis using e requiresMore_trans by metis
qed

lemma requiresMore_buildOperationV3_eq:
  "buildOperationV3 g summary operationID tagName description path bodyField
     inputMessage outputMessage = (r, g') \<Longrightarrow> requiresMore g g'"
  using requiresMore_buildOperationV3[of g summary operationID tagName description path bodyField
     inputMessage outputMessage] by simp

lemma requiresMore_addMethodsV3:
  "requiresMore g (fst (addMethodsV3 service methods (g, d, n)))
   \<and> d_Schemas (fst (snd (addMethodsV3 service methods (g, d, n)))) = d_Schemas d"
proof (induction methods arbitrary: g d n)
  case Nil
  show ?case by (simp add: requiresMore_refl)
next
  case (Cons m methods)
  have IH1: "requiresMore g g1
      \<Longrightarrow> requiresMore g (fst (addMethodsV3 service methods (g1, d1, n1)))" for g1 d1 n1
    using Cons[of g1 d1 n1] requiresMore_trans by blast
  have IH2: "d_Schemas d1 = d_Schemas d
      \<Longrightarrow> d_Schemas (fst (snd (addMethodsV3 service methods (g1, d1, n1)))) = d_Schemas d"
    for g1 d1 n1
    using Cons[of g1 d1 n1] by simp
  show ?case
    by (auto simp: Let_def addOperationV3_def requiresMore_refl
             split: prod.splits option.splits
             intro!: IH1 IH2 intro: requiresMore_buildOperationV3_eq)
qed

lemma requiresMore_addServicesV3:
  "requiresMore g (fst (addServicesV3 services (g, d)))
   \<and> d_Schemas (snd (addServicesV3 services (g, d))) = d_Schemas d"
proof (induction services arbitrary: g d)
  case Nil
  show ?case by (simp add: requiresMore_refl)
next
  case (Cons service services)
  obtain g1 d1 n1 where m: "addMethodsV3 service (sv_Methods service) (g, d, 0) = (g1, d1, n1)"
    by (metis prod_cases3)
  have g1: "requiresMore g g1" and d1: "d_Schemas d1 = d_Schemas d"
    using requiresMore_addMethodsV3[of g service "sv_Methods service" d 0] m by simp_all
  show ?case
    using m g1 d1 Cons[of g1 d1]
      Cons[of g1 "d1\<lparr>d_Tags := d_Tags d1 @ [\<lparr> t_Name = sv_GoName service,
              t_Description = filterCommentString (sv_Leading service) False \<rparr>]\<rparr>"]
      requiresMore_trans[of g g1]
    by (auto simp: Let_def)
qed

lemma requiresMore_addPathsOfFiles:
  "requiresMore (fst st) (fst (addPathsOfFiles fls st))
   \<and> d_Schemas (snd (addPathsOfFiles fls st)) = d_Schemas (snd st)"
proof (induction fls arbitrary: st)
  case Nil
  show ?case by (simp add: requiresMore_refl)
next
  case (Cons f fls)
  obtain g d where st: "st = (g, d)" by (cases st)
  show ?case
    using Cons[of st] Cons[of "addServicesV3 (fl_Services f) (g, d)"]
      requiresMore_addServicesV3[of g "fl_Services f" d]
      requiresMore_trans[of g "fst (addServicesV3 (fl_Services f) (g, d))"]
    by (auto simp: st addPathsToDocumentV3_def)
qed

text \<open>
  A pass appends to \<open>generatedSchemas\<close> names of declared messages that were not there, each
  once.  After a pass that appends no name no schema is required.  So the number of
  declared names that are not yet generated goes down with every pass but the last.
\<close>

lemma foldl_addSchema_generated:
  "\<exists>new. generatedSchemas (fst (foldl addSchema st ms)) = generatedSchemas (fst st) @ new
     \<and> distinct new \<and> set new \<inter> set (generatedSchemas (fst st)) = {}
     \<and> set new \<subseteq> typeNameOf ` set ms
     \<and> (new = [] \<longrightarrow> foldl addSchema st ms = st)"
proof (induction ms arbitrary: st)
  case Nil
  show ?case by simp
next
  case (Cons m ms)
  obtain g d where st: "st = (g, d)" by (cases st)
  show ?case
  proof (cases "typeNameOf m \<in> set (requiredSchemas g) \<and> typeNameOf m \<notin> set (generatedSchemas g)")
    case False
    then have "addSchema st m = st" using addSchema_skip[of m st] st by auto
    then show ?thesis using Cons[of st] by auto
  next
    case True
    obtain schema where a: "addSchema (g, d) m =
           (g\<lparr>generatedSchemas := generatedSchemas g @ [typeNameOf m],
               requiredSchemas := foldl appendUnique (requiredSchemas g) (messageTypeNames m)\<rparr>,
            d\<lparr>d_Schemas := d_Schemas d @ [(formatMessageName g m, schema)]\<rparr>)"
      using addSchema_generate[of m g d] True by blast
    define st1 where "st1 = addSchema (g, d) m"
    have g1: "generatedSchemas (fst st1) = generatedSchemas g @ [typeNameOf m]"
      using a by (simp add: st1_def)
    obtain new where new: "generatedSchemas (fst (foldl addSchema st1 ms)) = generatedSchemas (fst st1) @ new"
        "distinct new" "set new \<inter> set (generatedSchemas (fst st1)) = {}"
        "set new \<subseteq> typeNameOf ` set ms"
      using Cons[of st1] by blast
    let ?new = "typeNameOf m # new"
    have "generatedSchemas (fst (foldl addSchema st (m # ms))) = generatedSchemas (fst st) @ ?new"
      using new(1) g1 by (simp add: st st1_def)
    moreover have "distinct ?new" using new(2,3) g1 by auto
    moreover have "set ?new \<inter> set (generatedSchemas (fst st)) = {}"
      using new(3) g1 True by (auto simp: st)
    moreover have "set ?new \<subseteq> typeNameOf ` set (m # ms)" using new(4) by auto
    ultimately show ?thesis by blast
  qed
qed

lemma schemaPass_generated:
  "\<exists>new. generatedSchemas (fst (schemaPass files st)) = generatedSchemas (fst st) @ new
     \<and> distinct new \<and> set new \<inter> set (generatedSchemas (fst st)) = {}
     \<and> set new \<subseteq> typeNameOf ` set (declaredMessages files)
     \<and> (new = [] \<longrightarrow> requiredSchemas (fst (schemaPass files st)) = [])"
proof -
  obtain new where new:
      "generatedSchemas (fst (foldl addSchema st (declaredMessages files))) = generatedSchemas (fst st) @ new"
      "distinct new" "set new \<inter> set (generatedSchemas (fst st)) = {}"
      "set new \<subseteq> typeNameOf ` set (declaredMessages files)"
      "new = [] \<longrightarrow> foldl addSchema st (declaredMessages files) = st"
    using foldl_addSchema_generated[of st "declaredMessages files"] by blast
  have "generatedSchemas (fst (schemaPass files st)) = generatedSchemas (fst st) @ new"
    using new(1) by (auto simp: schemaPass_def addSchemasOfFiles_foldl Let_def split: prod.splits)
  moreover have "new = [] \<longrightarrow> requiredSchemas (fst (schemaPass files st)) = []"
    using new(5) by (auto simp: schemaPass_def addSchemasOfFiles_foldl Let_def split: prod.splits)
  ultimately show ?thesis using new(2,3,4) by blast
qed

lemma schemaLoop_returns:
  "\<exists>r new. schemaLoop files st = Some r \<and> requiredSchemas (fst r) = []
     \<and> generatedSchemas (fst r) = generatedSchemas (fst st) @ new
     \<and> distinct new \<and> set new \<inter> set (generatedSchemas (fst st)) = {}"
proof (induction "card (typeNameOf ` set (declaredMessages files) - set (generatedSchemas (fst st)))"
       arbitrary: st rule: less_induct)
  case less
  let ?D = "typeNameOf ` set (declaredMessages files)"
  show ?case
  proof (cases "requiredSchemas (fst st) = []")
    case True
    then have "schemaLoop files st = Some st" by (subst schemaLoop.simps) simp
    then show ?thesis using True by simp
  next
    case False
    define st1 where "st1 = schemaPass files st"
    have loop: "schemaLoop files st = schemaLoop files st1"
      using False by (subst schemaLoop.simps) (simp add: st1_def)
    obtain new where new:
        "generatedSchemas (fst st1) = generatedSchemas (fst st) @ new"
        "distinct new" "set new \<inter> set (generatedSchemas (fst st)) = {}"
        "set new \<subseteq> ?D" "new = [] \<longrightarrow> requiredSchemas (fst st1) = []"
      using schemaPass_generated[of files st] unfolding st1_def by blast
    show ?thesis
    proof (cases "new = []")
      case True
      then have "schemaLoop files st1 = Some st1"
        using new(5) by (subst schemaLoop.simps) simp
      then show ?thesis using loop new True by simp
    next
      case False
      then obtain t where t: "t \<in> set new" by (cases new) auto
      have "?D - set (generatedSchemas (fst st1)) \<subset> ?D - set (generatedSchemas (fst st))"
        using t new(1,3,4) by auto
      then have "card (?D - set (generatedSchemas (fst st1))) < card (?D - set (generatedSchemas (fst st)))"
        by (simp add: psubset_card_mono)
      then obtain r new2 where r: "schemaLoop files st1 = Some r" "requiredSchemas (fst r) = []"
          "generatedSchemas (fst r) = generatedSchemas (fst st1) @ new2"
          "distinct new2" "set new2 \<inter> set (generatedSchemas (fst st1)) = {}"
        using less[of st1] by blast
      have "generatedSchemas (fst r) = generatedSchemas (fst st) @ (new @ new2)"
        using r(3) new(1) by simp
      moreover have "distinct (new @ new2)" using new(1,2) r(4,5) by auto
      moreover have "set (new @ new2) \<inter> set (generatedSchemas (fst st)) = {}"
        using new(1,3) r(5) by auto
      ultimately show ?thesis using loop r(1,2) by metis
    qed
  qed
qed

text \<open>
  C2.  The schema loop of \<open>buildDocumentV3\<close> returns, from every state of the generator
  and for every list of files, and then no schema is required any more.  The names that
  the loop appends to \<open>generatedSchemas\<close> are pairwise different and none of them was in
  the list before; so \<open>buildDocumentV3\<close> returns, with no name twice in
  \<open>generatedSchemas\<close>.
\<close>

theorem schema_loop_terminates:
  "(\<exists>g' d' new. schemaLoop files (g, d) = Some (g', d') \<and> requiredSchemas g' = []
       \<and> generatedSchemas g' = generatedSchemas g @ new \<and> distinct new
       \<and> set new \<inter> set (generatedSchemas g) = {})
   \<and> (\<exists>g' d'. buildDocumentV3 (NewOpenAPIv3Generator c) files = Some (g', d')
         \<and> distinct (generatedSchemas g'))"
proof
  show "\<exists>g' d' new. schemaLoop files (g, d) = Some (g', d') \<and> requiredSchemas g' = []
       \<and> generatedSchemas g' = generatedSchemas g @ new \<and> distinct new
       \<and> set new \<inter> set (generatedSchemas g) = {}"
    using schemaLoop_returns[of files "(g, d)"] by auto
next
  let ?g = "NewOpenAPIv3Generator c"
  obtain g1 d1 where p: "addPathsOfFiles files (?g, newDocument ?g) = (g1, d1)"
    by (cases "addPathsOfFiles files (?g, newDocument ?g)")
  have "generatedSchemas g1 = []"
    using requiresMore_addPathsOfFiles[of "(?g, newDocument ?g)" files] p
      requiresMore_generated[of ?g g1]
    by (simp add: NewOpenAPIv3Generator_def)
  then obtain r where r: "schemaLoop files (g1, singleServiceTitle d1) = Some r"
      "distinct (generatedSchemas (fst r))"
    using schemaLoop_returns[of files "(g1, singleServiceTitle d1)"] by auto
  show "\<exists>g' d'. buildDocumentV3 ?g files = Some (g', d') \<and> distinct (generatedSchemas g')"
    using p r by (cases r) (simp add: buildDocumentV3_def Let_def)
qed

text \<open>
  The library whose book and shelf refer to each other: the first pass generates the
  shelf, the second pass the book.
\<close>

lemma shelf_example:
  "map_option (\<lambda>r. (generatedSchemas (fst r), map fst (d_Schemas (snd r))))
     (buildDocumentV3 exampleGenerator [shelfFile])
   = Some ([''.pkg.Shelf'', ''.pkg.Book''], [''Book'', ''Shelf''])"
  by code_simp

theorem schema_loop_terminates_witness:
  "(\<exists>g' d' new. schemaLoop [shelfFile]
        (exampleGenerator\<lparr>requiredSchemas := [''.pkg.Shelf'']\<rparr>, newDocument exampleGenerator)
          = Some (g', d') \<and> requiredSchemas g' = []
       \<and> generatedSchemas g' = [] @ new \<and> distinct new \<and> set new \<inter> set [] = {})
   \<and> (\<exists>g' d'. buildDocumentV3 (NewOpenAPIv3Generator exampleConfiguration) [shelfFile] = Some (g', d')
         \<and> distinct (generatedSchemas g'))"
  using schema_loop_terminates[of "[shelfFile]"
      "exampleGenerator\<lparr>requiredSchemas := [''.pkg.Shelf'']\<rparr>" "newDocument exampleGenerator"
      exampleConfiguration]
  by (simp add: exampleGenerator_def NewOpenAPIv3Generator_def)

end
